theory Spec2Isabelle
  imports Main "HOL-Library.Sublist"
begin

section \<open>Tree/property merge of the allProperties endpoint\<close>

text \<open>
  The route handler \<^verbatim>\<open>GET\<close> of
  \<^verbatim>\<open>app/api/modelDerivate/[region]/[version_id]/views/[view_guid]/allProperties/route.ts\<close>
  joins the flat property collection returned by \<^verbatim>\<open>getAllProperties\<close> to the object
  tree returned by \<^verbatim>\<open>getObjectTree\<close>.

  A property bag (\<^verbatim>\<open>{ [key: string]: object }\<close>) is an association list from category
  names to association lists from property names to values.
\<close>

type_synonym props = "(string \<times> (string \<times> string) list) list"

text \<open>
  \<^verbatim>\<open>PropertiesDataCollection\<close> of the SDK: one record of the flat collection. The
  fields are prefixed because \<^verbatim>\<open>objectid\<close>, \<^verbatim>\<open>name\<close> and \<^verbatim>\<open>properties\<close> are also
  fields of the tree nodes.
\<close>

record PropertiesDataCollection =
  prop_objectid :: int
  prop_name :: string
  prop_properties :: props

text \<open>
  \<^verbatim>\<open>ObjectTreeData\<close> (types/index.ts) extends the SDK's \<^verbatim>\<open>ObjectTreeDataObjects\<close>
  (\<^verbatim>\<open>objectid\<close>, \<^verbatim>\<open>name\<close>, optional \<^verbatim>\<open>objects\<close>) by an optional \<^verbatim>\<open>properties\<close>
  field. An optional field is an \<open>option\<close>: \<open>None\<close> is \<^verbatim>\<open>undefined\<close>.
\<close>

datatype ObjectTreeData =
  ObjectTreeData (objectid: int) (name: string)
    (objects: "ObjectTreeData list option") (properties: "props option")

text \<open>
  \<^verbatim>\<open>
  const propertiesMap = new Map<number, PropertiesDataCollection>();
  allProperties.properties.forEach((prop) => propertiesMap.set(prop.objectid, prop));
  \<close>
  \<^verbatim>\<open>forEach\<close> visits the array from the first element to the last; \<^verbatim>\<open>set\<close> overwrites
  an existing key.
\<close>

definition propertiesMap ::
  "PropertiesDataCollection list \<Rightarrow> (int \<rightharpoonup> PropertiesDataCollection)" where
  "propertiesMap ps = foldl (\<lambda>m prop. m(prop_objectid prop \<mapsto> prop)) Map.empty ps"

text \<open>
  \<^verbatim>\<open>
  const attachProperties = (objects: ObjectTreeData[]): ObjectTreeData[] => {
    objects.forEach((object) => {
      const property = propertiesMap.get(object.objectid);
      if (property) {
        object.properties = property.properties;
      }
      if (object.objects) {
        attachProperties(object.objects as ObjectTreeData[]);
      }
    });
    return objects;
  };
  \<close>
  The source mutates the nodes in place and returns the same array; the model returns
  the updated forest. \<open>attachObject\<close> is the body of the \<^verbatim>\<open>forEach\<close> callback. A found
  record is an object and therefore truthy; an \<^verbatim>\<open>objects\<close> array is truthy also when it
  is empty.
\<close>

fun attachProperties ::
    "(int \<rightharpoonup> PropertiesDataCollection) \<Rightarrow> ObjectTreeData list \<Rightarrow> ObjectTreeData list"
  and attachObject ::
    "(int \<rightharpoonup> PropertiesDataCollection) \<Rightarrow> ObjectTreeData \<Rightarrow> ObjectTreeData" where
  "attachProperties pm [] = []"
| "attachProperties pm (object # rest) = attachObject pm object # attachProperties pm rest"
| "attachObject pm (ObjectTreeData oid nm objs props) =
     ObjectTreeData oid nm
       (case objs of None \<Rightarrow> None | Some os \<Rightarrow> Some (attachProperties pm os))
       (case pm oid of Some property \<Rightarrow> Some (prop_properties property) | None \<Rightarrow> props)"

text \<open>The merge as the handler composes it: the map is built first, then the tree is walked.\<close>

definition merge :: "ObjectTreeData list \<Rightarrow> PropertiesDataCollection list \<Rightarrow> ObjectTreeData list" where
  "merge tree ps = attachProperties (propertiesMap ps) tree"

text \<open>
  All nodes of a forest in document order (a node before its descendants, siblings from
  left to right). Used to speak about every node at every depth.
\<close>

fun allObjects :: "ObjectTreeData list \<Rightarrow> ObjectTreeData list"
  and objectAndBelow :: "ObjectTreeData \<Rightarrow> ObjectTreeData list" where
  "allObjects [] = []"
| "allObjects (object # rest) = objectAndBelow object @ allObjects rest"
| "objectAndBelow (ObjectTreeData oid nm objs props) =
     ObjectTreeData oid nm objs props # (case objs of None \<Rightarrow> [] | Some os \<Rightarrow> allObjects os)"

section \<open>Version identifiers in request paths\<close>

text \<open>
  \<^verbatim>\<open>s.replace(pattern, replacement)\<close> of JavaScript with a string pattern: the first
  occurrence of the pattern, scanning from the left, is replaced; later occurrences stay.
  (The replacement strings used by this program, \<^verbatim>\<open>"%2F"\<close> and \<^verbatim>\<open>"/"\<close>, contain no
  \<^verbatim>\<open>$\<close>, so they are inserted literally.)
\<close>

fun replace :: "string \<Rightarrow> string \<Rightarrow> string \<Rightarrow> string" where
  "replace pat rep s =
     (if prefix pat s then rep @ drop (length pat) s
      else (case s of [] \<Rightarrow> [] | c # cs \<Rightarrow> c # replace pat rep cs))"

declare replace.simps [simp del]

text \<open>
  \<^verbatim>\<open>btoa\<close> is the browser's base64 encoder: three bytes become four characters of the
  alphabet below, a trailing group of one or two bytes is padded with \<^verbatim>\<open>=\<close>. HOL's
  \<open>char\<close> is a byte, so every \<open>string\<close> is in the range \<^verbatim>\<open>btoa\<close> accepts.
\<close>

definition base64Alphabet :: string where
  "base64Alphabet = ''ABCDEFGHIJKLMNOPQRSTUVWXYZabcdefghijklmnopqrstuvwxyz0123456789+/''"

definition sextet :: "nat \<Rightarrow> char" where
  "sextet n = base64Alphabet ! (n mod 64)"

fun btoa :: "string \<Rightarrow> string" where
  "btoa [] = []"
| "btoa [a] =
     (let x = (of_char a :: nat)
      in [sextet (x div 4), sextet ((x mod 4) * 16), CHR ''='', CHR ''=''])"
| "btoa [a, b] =
     (let x = (of_char a :: nat); y = (of_char b :: nat)
      in [sextet (x div 4), sextet ((x mod 4) * 16 + y div 16), sextet ((y mod 16) * 4), CHR ''=''])"
| "btoa (a # b # c # rest) =
     (let x = (of_char a :: nat); y = (of_char b :: nat); z = (of_char c :: nat)
      in [sextet (x div 4), sextet ((x mod 4) * 16 + y div 16),
          sextet ((y mod 16) * 4 + z div 64), sextet (z mod 64)] @ btoa rest)"

text \<open>
  projectSidebar.tsx, expanding a version node:
  \<^verbatim>\<open>const encodedVersion = btoa(version).replace("/", "%2F");\<close>
\<close>

definition encodedVersion :: "string \<Rightarrow> string" where
  "encodedVersion version = replace ''/'' ''%2F'' (btoa version)"

text \<open>
  page.tsx, \<^verbatim>\<open>handleModelViewSelect\<close>:
  \<^verbatim>\<open>const encodedUrn = itemUrn.replace("/", "%2F");\<close>
\<close>

definition encodedUrn :: "string \<Rightarrow> string" where
  "encodedUrn itemUrn = replace ''/'' ''%2F'' itemUrn"

text \<open>
  The route handlers:
  \<^verbatim>\<open>const decodedVersionId = version_id.replace("%2F", "/");\<close>
\<close>

definition decodedVersionId :: "string \<Rightarrow> string" where
  "decodedVersionId version_id = replace ''%2F'' ''/'' version_id"

section \<open>The lazy navigation tree of the sidebar\<close>

text \<open>
  projectSidebar.tsx. A node of the navigation tree:
  \<^verbatim>\<open>
  interface TreeNode {
    id: string;
    name: string;
    type: "hub" | "project" | "folder" | "item" | "version" | "view" | "error";
    children?: TreeNode[];
    isOpen?: boolean;
    isLoading?: boolean;
    parent?: string;
  }
  \<close>
  Optional fields are options (\<open>None\<close> is \<^verbatim>\<open>undefined\<close>). The selectors of \<^verbatim>\<open>id\<close>,
  \<^verbatim>\<open>name\<close> and \<^verbatim>\<open>type\<close> are prefixed: \<open>id\<close> is HOL's identity function and \<open>name\<close> is a
  field of the object tree.
\<close>

datatype NodeType = T_hub | T_project | T_folder | T_item | T_version | T_view | T_error

datatype TreeNode =
  TreeNode (node_id: string) (node_name: string) (node_type: NodeType)
    (children: "TreeNode list option") (isOpen: "bool option") (isLoading: "bool option")
    (parent: "string option")

text \<open>
  \<^verbatim>\<open>Partial<TreeNode>\<close>: an object literal that has some of the keys of a node. A key
  that is not written is \<open>None\<close>; a key that is written carries its value, which for an
  optional field may itself be \<^verbatim>\<open>undefined\<close>.
\<close>

record TreeNodeUpdates =
  u_id :: "string option"
  u_name :: "string option"
  u_type :: "NodeType option"
  u_children :: "TreeNode list option option"
  u_isOpen :: "bool option option"
  u_isLoading :: "bool option option"
  u_parent :: "string option option"

definition noUpdates :: TreeNodeUpdates where
  "noUpdates = \<lparr>u_id = None, u_name = None, u_type = None, u_children = None,
     u_isOpen = None, u_isLoading = None, u_parent = None\<rparr>"

text \<open>The object spread \<^verbatim>\<open>{ ...node, ...updates }\<close>: every key of \<^verbatim>\<open>updates\<close> wins.\<close>

definition spread :: "TreeNode \<Rightarrow> TreeNodeUpdates \<Rightarrow> TreeNode" where
  "spread node updates =
     TreeNode
       (case u_id updates of None \<Rightarrow> node_id node | Some v \<Rightarrow> v)
       (case u_name updates of None \<Rightarrow> node_name node | Some v \<Rightarrow> v)
       (case u_type updates of None \<Rightarrow> node_type node | Some v \<Rightarrow> v)
       (case u_children updates of None \<Rightarrow> children node | Some v \<Rightarrow> v)
       (case u_isOpen updates of None \<Rightarrow> isOpen node | Some v \<Rightarrow> v)
       (case u_isLoading updates of None \<Rightarrow> isLoading node | Some v \<Rightarrow> v)
       (case u_parent updates of None \<Rightarrow> parent node | Some v \<Rightarrow> v)"

text \<open>
  \<^verbatim>\<open>
  const updateNode = (nodes: TreeNode[], id: string, updates: Partial<TreeNode>): TreeNode[] => {
    return nodes.map((node) => {
      if (node.id === id) {
        return { ...node, ...updates };
      } else if (node.children) {
        return { ...node, children: updateNode(node.children, id, updates) };
      }
      return node;
    });
  };
  \<close>
  \<open>updateNodeIn\<close> is the callback of \<^verbatim>\<open>map\<close>. An array is truthy also when it is empty.
\<close>

fun updateNode :: "TreeNode list \<Rightarrow> string \<Rightarrow> TreeNodeUpdates \<Rightarrow> TreeNode list"
  and updateNodeIn :: "TreeNode \<Rightarrow> string \<Rightarrow> TreeNodeUpdates \<Rightarrow> TreeNode" where
  "updateNode [] i updates = []"
| "updateNode (node # rest) i updates = updateNodeIn node i updates # updateNode rest i updates"
| "updateNodeIn (TreeNode nid nm ty ch op ld pa) i updates =
     (if nid = i then spread (TreeNode nid nm ty ch op ld pa) updates
      else (case ch of
              Some cs \<Rightarrow> TreeNode nid nm ty (Some (updateNode cs i updates)) op ld pa
            | None \<Rightarrow> TreeNode nid nm ty ch op ld pa))"

text \<open>
  \<^verbatim>\<open>
  const findNode = (nodes: TreeNode[], id: string): TreeNode | undefined => {
    for (const node of nodes) {
      if (node.id === id) return node;
      if (node.children) {
        const found = findNode(node.children, id);
        if (found) return found;
      }
    }
    return undefined;
  };
  \<close>
\<close>

fun findNode :: "TreeNode list \<Rightarrow> string \<Rightarrow> TreeNode option" where
  "findNode [] i = None"
| "findNode (TreeNode nid nm ty ch op ld pa # rest) i =
     (if nid = i then Some (TreeNode nid nm ty ch op ld pa)
      else (case ch of
              Some cs \<Rightarrow> (case findNode cs i of Some found \<Rightarrow> Some found | None \<Rightarrow> findNode rest i)
            | None \<Rightarrow> findNode rest i))"

text \<open>
  \<^verbatim>\<open>nodeId.split("|")\<close>: the pieces between the separators; a string without a separator
  is one piece, the empty string too.
\<close>

fun split :: "char \<Rightarrow> string \<Rightarrow> string list" where
  "split sep [] = [[]]"
| "split sep (c # cs) =
     (if c = sep then [] # split sep cs
      else (case split sep cs of p # ps \<Rightarrow> (c # p) # ps | [] \<Rightarrow> [[c]]))"

text \<open>
  \<^verbatim>\<open>parts[k]\<close> inside a template literal or as the argument of \<^verbatim>\<open>btoa\<close>: a missing piece
  is \<^verbatim>\<open>undefined\<close>, which both render as the text \<^verbatim>\<open>undefined\<close>.
\<close>

definition part :: "string list \<Rightarrow> nat \<Rightarrow> string" where
  "part parts k = (if k < length parts then parts ! k else ''undefined'')"

text \<open>
  The request that the \<^verbatim>\<open>switch (nodeType)\<close> of \<^verbatim>\<open>toggleNode\<close> sends for a node id, one
  per case; an id of no case (such as the empty id of an error node) sends none.
\<close>

definition fetchUrl :: "string \<Rightarrow> string \<Rightarrow> string option" where
  "fetchUrl region nodeId =
     (let parts = split (CHR ''|'') nodeId; nodeType = part parts 0 in
      if nodeType = ''hub'' then
        Some (''/api/hubs/'' @ part parts 1 @ ''/projects'')
      else if nodeType = ''project'' then
        Some (''/api/hubs/'' @ part parts 1 @ ''/projects/'' @ part parts 2 @ ''/contents'')
      else if nodeType = ''folder'' then
        Some (''/api/hubs/'' @ part parts 1 @ ''/projects/'' @ part parts 2
              @ ''/contents?folder_id='' @ part parts 3)
      else if nodeType = ''item'' then
        Some (''/api/hubs/'' @ part parts 1 @ ''/projects/'' @ part parts 2
              @ ''/contents/'' @ part parts 3 @ ''/versions'')
      else if nodeType = ''version'' then
        Some (''/api/modelDerivate/'' @ region @ ''/'' @ encodedVersion (part parts 1) @ ''/views'')
      else None)"

text \<open>The records of types/index.ts that the responses carry.\<close>

record Project =
  Project_id :: string
  Project_name :: string
  Project_accountId :: string
  Project_type :: string

record FolderContent =
  FolderContent_id :: string
  FolderContent_name :: string
  FolderContent_folder :: bool

record Version =
  Version_id :: string
  Version_name :: string

record View =
  View_urn :: string
  View_guid :: string
  View_name :: string
  View_role :: string

datatype Payload =
  Projects "Project list" | Contents "FolderContent list"
  | Versions "Version list" | Views "View list"

text \<open>
  What \<^verbatim>\<open>await fetch(...)\<close> followed by \<^verbatim>\<open>await res.json()\<close> gives: the promise rejects
  (\<open>None\<close>), or there is a response with \<^verbatim>\<open>ok\<close>, \<^verbatim>\<open>status\<close> and a parsed body.
\<close>

record Response =
  ok :: bool
  status :: nat
  body :: Payload

text \<open>
  \<^verbatim>\<open>[...nodes].sort((a, b) => a.name.localeCompare(b.name))\<close>. The comparison of the
  locale is a parameter (\<open>localeCompare a b\<close> is negative, zero or positive); the sort is
  stable, as \<^verbatim>\<open>Array.prototype.sort\<close> is.
\<close>

fun insertByName :: "(string \<Rightarrow> string \<Rightarrow> int) \<Rightarrow> TreeNode \<Rightarrow> TreeNode list \<Rightarrow> TreeNode list" where
  "insertByName localeCompare x [] = [x]"
| "insertByName localeCompare x (y # ys) =
     (if localeCompare (node_name x) (node_name y) \<le> 0 then x # y # ys
      else y # insertByName localeCompare x ys)"

definition sortNodesByName :: "(string \<Rightarrow> string \<Rightarrow> int) \<Rightarrow> TreeNode list \<Rightarrow> TreeNode list" where
  "sortNodesByName localeCompare nodes = foldr (insertByName localeCompare) nodes []"

text \<open>
  The \<^verbatim>\<open>try\<close> block of \<^verbatim>\<open>toggleNode\<close> after the response has arrived: the children built
  from the response for the case of the node id, or \<open>None\<close> when the block throws (the
  request was rejected, or \<^verbatim>\<open>!res.ok\<close>; a body that is not the list the case expects
  makes \<^verbatim>\<open>map\<close> or \<^verbatim>\<open>localeCompare\<close> throw as well). A version node answers a failed
  request with a single error child instead.
\<close>

definition fetchedChildren ::
  "(string \<Rightarrow> string \<Rightarrow> int) \<Rightarrow> string \<Rightarrow> Response option \<Rightarrow> TreeNode list option" where
  "fetchedChildren localeCompare nodeId response =
     (let parts = split (CHR ''|'') nodeId; nodeType = part parts 0 in
      case response of
        None \<Rightarrow> None
      | Some res \<Rightarrow>
          if nodeType = ''hub'' then
            (if \<not> ok res then None
             else (case body res of
                Projects projects \<Rightarrow>
                  Some (sortNodesByName localeCompare
                    (map (\<lambda>project.
                        TreeNode (''project|'' @ part parts 1 @ ''|'' @ Project_id project)
                          (Project_name project) T_project (Some []) (Some False) None None)
                      projects))
              | _ \<Rightarrow> None))
          else if nodeType = ''project'' \<or> nodeType = ''folder'' then
            (if \<not> ok res then None
             else (case body res of
                Contents contents \<Rightarrow>
                  Some (sortNodesByName localeCompare
                    (map (\<lambda>content.
                        TreeNode
                          ((if FolderContent_folder content then ''folder|'' else ''item|'')
                            @ part parts 1 @ ''|'' @ part parts 2 @ ''|'' @ FolderContent_id content)
                          (FolderContent_name content)
                          (if FolderContent_folder content then T_folder else T_item)
                          (Some []) (Some False) None None)
                      contents))
              | _ \<Rightarrow> None))
          else if nodeType = ''item'' then
            (if \<not> ok res then None
             else (case body res of
                Versions versions \<Rightarrow>
                  Some (sortNodesByName localeCompare
                    (map (\<lambda>version.
                        TreeNode (''version|'' @ Version_id version) (Version_name version)
                          T_version None None None None)
                      versions))
              | _ \<Rightarrow> None))
          else if nodeType = ''version'' then
            (if \<not> ok res \<or> status res = 404 then
               Some [TreeNode '''' ''Error: No views found'' T_error None (Some False) None None]
             else (case body res of
                Views views \<Rightarrow>
                  Some (sortNodesByName localeCompare
                    (map (\<lambda>view.
                        TreeNode (''view|'' @ View_guid view) (View_name view) T_view
                          None None None (Some (View_urn view)))
                      (filter (\<lambda>view. View_role view = ''3d'') views)))
              | _ \<Rightarrow> None))
          else Some [])"

text \<open>
  \<^verbatim>\<open>toggleNode(nodeId)\<close> runs in two parts. The first part runs when the node is clicked,
  on the \<^verbatim>\<open>tree\<close> of the current render, up to the \<^verbatim>\<open>await fetch(...)\<close>: it returns the
  last value it passed to \<^verbatim>\<open>setTree\<close> (\<open>None\<close>: it returned without setting the tree) and
  the request it sent, if any.
  \<^verbatim>\<open>
  const node = findNode(tree, nodeId);
  if (!node) return;
  if (node.isOpen) {
    setTree(updateNode(tree, nodeId, { isOpen: false }));
    return;
  }
  if (!node.children || node.children.length === 0) {
    setTree(updateNode(tree, nodeId, { isLoading: true }));
    try { ... switch (nodeType) { ... await fetch(...) ... }
      setTree(updateNode(tree, nodeId, { children, isOpen: true, isLoading: false }));
    } catch (error) {
      setTree(updateNode(tree, nodeId, { isLoading: false }));
    }
  } else {
    setTree(updateNode(tree, nodeId, { isOpen: true }));
  }
  \<close>
  There is no test of \<^verbatim>\<open>node.isLoading\<close>.
\<close>

record Toggled =
  setTree :: "TreeNode list option"
  request :: "string option"

definition toggleNode :: "string \<Rightarrow> TreeNode list \<Rightarrow> string \<Rightarrow> Toggled" where
  "toggleNode region tree nodeId =
     (case findNode tree nodeId of
        None \<Rightarrow> \<lparr>setTree = None, request = None\<rparr>
      | Some node \<Rightarrow>
          if isOpen node = Some True then
            \<lparr>setTree = Some (updateNode tree nodeId (noUpdates\<lparr>u_isOpen := Some (Some False)\<rparr>)),
             request = None\<rparr>
          else if children node = None \<or> children node = Some [] then
            (case fetchUrl region nodeId of
               Some url \<Rightarrow>
                 \<lparr>setTree = Some (updateNode tree nodeId (noUpdates\<lparr>u_isLoading := Some (Some True)\<rparr>)),
                  request = Some url\<rparr>
             | None \<Rightarrow>
                 \<lparr>setTree = Some (updateNode tree nodeId
                    (noUpdates\<lparr>u_children := Some (Some []), u_isOpen := Some (Some True),
                       u_isLoading := Some (Some False)\<rparr>)),
                  request = None\<rparr>)
          else
            \<lparr>setTree = Some (updateNode tree nodeId (noUpdates\<lparr>u_isOpen := Some (Some True)\<rparr>)),
             request = None\<rparr>)"

text \<open>
  The second part runs when the response arrives. It still holds the \<^verbatim>\<open>tree\<close> of the
  render in which the node was clicked, and returns the value it passes to \<^verbatim>\<open>setTree\<close>.
\<close>

definition toggleNodeResumed ::
  "(string \<Rightarrow> string \<Rightarrow> int) \<Rightarrow> TreeNode list \<Rightarrow> string \<Rightarrow> Response option \<Rightarrow> TreeNode list" where
  "toggleNodeResumed localeCompare tree nodeId response =
     (case fetchedChildren localeCompare nodeId response of
        Some kids \<Rightarrow>
          updateNode tree nodeId
            (noUpdates\<lparr>u_children := Some (Some kids), u_isOpen := Some (Some True),
               u_isLoading := Some (Some False)\<rparr>)
      | None \<Rightarrow> updateNode tree nodeId (noUpdates\<lparr>u_isLoading := Some (Some False)\<rparr>))"

text \<open>
  All nodes of a navigation forest in document order, and the node at a path of child
  positions (\<open>[2, 0]\<close> is the first child of the third root). Used to state which nodes an
  update touches.
\<close>

fun allNodes :: "TreeNode list \<Rightarrow> TreeNode list"
  and nodeAndBelow :: "TreeNode \<Rightarrow> TreeNode list" where
  "allNodes [] = []"
| "allNodes (node # rest) = nodeAndBelow node @ allNodes rest"
| "nodeAndBelow (TreeNode nid nm ty ch op ld pa) =
     TreeNode nid nm ty ch op ld pa # (case ch of None \<Rightarrow> [] | Some cs \<Rightarrow> allNodes cs)"

fun nodeAt :: "TreeNode list \<Rightarrow> nat list \<Rightarrow> TreeNode option" where
  "nodeAt nodes [] = None"
| "nodeAt nodes [k] = (if k < length nodes then Some (nodes ! k) else None)"
| "nodeAt nodes (k # j # path) =
     (if k < length nodes then
        (case children (nodes ! k) of None \<Rightarrow> None | Some cs \<Rightarrow> nodeAt cs (j # path))
      else None)"


section \<open>The allProperties route handler\<close>

text \<open>
  What \<^verbatim>\<open>getAllProperties\<close> of lib/services/aps.ts resolves to,
  \<^verbatim>\<open>{ properties: PropertiesDataCollection[]; isProcessing: boolean }\<close>, and the body
  \<^verbatim>\<open>res\<close> the handler answers with.
\<close>

record AllProperties =
  ap_properties :: "PropertiesDataCollection list"
  ap_isProcessing :: bool

record AllPropertiesBody =
  res_isProcessing :: bool
  res_properties :: "PropertiesDataCollection list"
  res_objectTreeWithProperties :: "ObjectTreeData list"

text \<open>
  The collaborators of the handler. \<open>authTokens\<close> is the access token of
  \<^verbatim>\<open>(await getAuthTokens()).internalToken\<close>, \<open>None\<close> when there are no tokens. The two
  gateway functions take the URN, the view GUID, the region and the token; \<open>None\<close> is a
  rejected promise (the services log and rethrow).
\<close>

record Gateway =
  authTokens :: "string option"
  getAllProperties :: "string \<Rightarrow> string \<Rightarrow> string \<Rightarrow> string \<Rightarrow> AllProperties option"
  getObjectTree :: "string \<Rightarrow> string \<Rightarrow> string \<Rightarrow> string \<Rightarrow> ObjectTreeData list option"

datatype Call =
  GetAuthTokens
  | GetAllProperties string string string string
  | GetObjectTree string string string string

fun isGetObjectTree :: "Call \<Rightarrow> bool" where
  "isGetObjectTree (GetObjectTree urn guid region token) = True"
| "isGetObjectTree call = False"

text \<open>\<^verbatim>\<open>Response.json(res)\<close>, or \<^verbatim>\<open>Response.json({ error }, { status })\<close>.\<close>

datatype HandlerResponse = Json AllPropertiesBody | ErrorJson nat string

text \<open>
  \<^verbatim>\<open>
  export async function GET(request, { params }) {
    const { version_id, view_guid, region } = await params;
    const tokens = await getAuthTokens();
    if (!tokens) {
      return Response.json({ error: "Unauthorized" }, { status: 401 });
    }
    try {
      const decodedVersionId = version_id.replace("%2F", "/");
      const allProperties = await getAllProperties(
        decodedVersionId, view_guid, region as Region, tokens.internalToken.access_token);
      const res = { isProcessing: true, properties: [], objectTreeWithProperties: [] };
      if (!allProperties.isProcessing) {
        const propertiesMap = ...;
        const objectTree = await getObjectTree(
          decodedVersionId, view_guid, region as Region, tokens.internalToken.access_token);
        const attachProperties = ...;
        const objectTreeWithProperties = attachProperties(objectTree);
        res.isProcessing = false;
        res.properties = allProperties.properties;
        res.objectTreeWithProperties = objectTreeWithProperties;
      }
      return Response.json(res);
    } catch (error) {
      return Response.json({ error: "Failed to fetch all properties" }, { status: 500 });
    }
  }
  \<close>
  This is the handler of the route with a region,
  \<^verbatim>\<open>app/api/modelDerivate/[region]/[version_id]/views/[view_guid]/allProperties/route.ts\<close>,
  over the services that take a region and resolve to \<^verbatim>\<open>{ properties, isProcessing }\<close>.
  The older handler of the route without a region runs over older services and is
  \<open>GET_v1\<close> below. The model returns the response together with the calls made to the
  collaborators, in the order they were made.
\<close>

definition GET :: "Gateway \<Rightarrow> string \<Rightarrow> string \<Rightarrow> string \<Rightarrow> HandlerResponse \<times> Call list" where
  "GET gw region version_id view_guid =
     (case authTokens gw of
        None \<Rightarrow> (ErrorJson 401 ''Unauthorized'', [GetAuthTokens])
      | Some token \<Rightarrow>
          (let urn = decodedVersionId version_id in
           case getAllProperties gw urn view_guid region token of
             None \<Rightarrow>
               (ErrorJson 500 ''Failed to fetch all properties'',
                [GetAuthTokens, GetAllProperties urn view_guid region token])
           | Some allProperties \<Rightarrow>
               if \<not> ap_isProcessing allProperties then
                 (case getObjectTree gw urn view_guid region token of
                    None \<Rightarrow>
                      (ErrorJson 500 ''Failed to fetch all properties'',
                       [GetAuthTokens, GetAllProperties urn view_guid region token,
                        GetObjectTree urn view_guid region token])
                  | Some objectTree \<Rightarrow>
                      (Json \<lparr>res_isProcessing = False,
                             res_properties = ap_properties allProperties,
                             res_objectTreeWithProperties =
                               merge objectTree (ap_properties allProperties)\<rparr>,
                       [GetAuthTokens, GetAllProperties urn view_guid region token,
                        GetObjectTree urn view_guid region token]))
               else
                 (Json \<lparr>res_isProcessing = True, res_properties = [],
                        res_objectTreeWithProperties = []\<rparr>,
                  [GetAuthTokens, GetAllProperties urn view_guid region token])))"

text \<open>
  The older handler, \<^verbatim>\<open>app/api/modelDerivate/[version_id]/views/[view_guid]/allProperties/route.ts\<close>,
  calls the services of \<^verbatim>\<open>src/lib/services/aps.ts\<close>, which take no region and pass
  \<^verbatim>\<open>region: "EMEA"\<close> to the SDK client:
  \<^verbatim>\<open>
  export const getAllProperties = async (versionUrn, modelGuid, accessToken):
      Promise<{ properties: PropertiesDataCollection[], isLoading: boolean }> => {
    const resp = await modelDerivativeClient.getAllProperties(versionUrn, modelGuid,
      {region: "EMEA", accessToken, forceget: "true" });
    const properties: PropertiesDataCollection[] = [];
    if (resp.isProcessing) {
      console.log(resp)
    } else {
      properties.push(...resp.data.collection);
    }
    return {properties: properties, isLoading: resp.isProcessing };
  };
  export const getObjectTree = async (versionUrn, modelGuid, accessToken) => {
    const resp = await modelDerivativeClient.getObjectTree(versionUrn, modelGuid,
      {region: "EMEA", accessToken, forceget: "true" });
    return resp.data.objects;
  };
  \<close>
  \<open>SdkProperties\<close> is what the SDK client's \<^verbatim>\<open>getAllProperties\<close> resolves to
  (\<^verbatim>\<open>resp.isProcessing\<close> and \<^verbatim>\<open>resp.data.collection\<close>), \<open>AllPropertiesLoading\<close> what the
  service resolves to.
\<close>

record SdkProperties =
  sdk_isProcessing :: bool
  sdk_collection :: "PropertiesDataCollection list"

record AllPropertiesLoading =
  apl_properties :: "PropertiesDataCollection list"
  apl_isLoading :: bool

definition getAllProperties_v1 :: "SdkProperties \<Rightarrow> AllPropertiesLoading" where
  "getAllProperties_v1 resp =
     \<lparr>apl_properties = (if sdk_isProcessing resp then [] else sdk_collection resp),
      apl_isLoading = sdk_isProcessing resp\<rparr>"

text \<open>
  The older handler reads \<^verbatim>\<open>allProperties.isProcessing\<close>. The object the older service
  resolves to has the keys \<^verbatim>\<open>properties\<close> and \<^verbatim>\<open>isLoading\<close> only, so the read gives
  \<^verbatim>\<open>undefined\<close>, whatever the object holds.
\<close>

definition isProcessing_v1 :: "AllPropertiesLoading \<Rightarrow> bool option" where
  "isProcessing_v1 allProperties = None"

text \<open>
  The collaborators of the older handler: the tokens, and the two methods of the SDK
  client with the URN, the view GUID, the region and the token (\<open>None\<close>: the promise is
  rejected). \<open>v1_getObjectTree\<close> gives \<^verbatim>\<open>resp.data.objects\<close>.
\<close>

record Collaborators_v1 =
  v1_authTokens :: "string option"
  v1_getAllProperties :: "string \<Rightarrow> string \<Rightarrow> string \<Rightarrow> string \<Rightarrow> SdkProperties option"
  v1_getObjectTree :: "string \<Rightarrow> string \<Rightarrow> string \<Rightarrow> string \<Rightarrow> ObjectTreeData list option"

text \<open>
  \<^verbatim>\<open>
  export async function GET(request, { params }) {
    const { version_id, view_guid } = await params;
    const tokens = await getAuthTokens();
    if (!tokens) {
      return Response.json({ error: "Unauthorized" }, { status: 401 });
    }
    try {
      const allProperties = await getAllProperties(version_id.replace("%2F", "/"), view_guid,
        tokens.internalToken.access_token);
      const res = { isProcessing: true, properties: [], objectTreeWithProperties: [] };
      if (!allProperties.isProcessing) {
        const propertiesMap = ...;
        const objectTree = await getObjectTree(version_id.replace("%2F", "/"), view_guid,
          tokens.internalToken.access_token);
        const attachProperties = ...;   // objects.map in place of objects.forEach
        const objectTreeWithProperties = attachProperties(objectTree);
        res.isProcessing = false;
        res.properties = allProperties.properties;
        res.objectTreeWithProperties = objectTreeWithProperties;
      }
      return Response.json(res);
    } catch (error) {
      return Response.json({ error: "Failed to fetch all properties" }, { status: 500 });
    }
  }
  \<close>
  The calls recorded are those of the SDK client, with the region the services pass.
\<close>

definition GET_v1 :: "Collaborators_v1 \<Rightarrow> string \<Rightarrow> string \<Rightarrow> HandlerResponse \<times> Call list" where
  "GET_v1 c version_id view_guid =
     (case v1_authTokens c of
        None \<Rightarrow> (ErrorJson 401 ''Unauthorized'', [GetAuthTokens])
      | Some token \<Rightarrow>
          (let urn = decodedVersionId version_id in
           case v1_getAllProperties c urn view_guid ''EMEA'' token of
             None \<Rightarrow>
               (ErrorJson 500 ''Failed to fetch all properties'',
                [GetAuthTokens, GetAllProperties urn view_guid ''EMEA'' token])
           | Some resp \<Rightarrow>
               (let allProperties = getAllProperties_v1 resp in
                if \<not> (isProcessing_v1 allProperties = Some True) then
                  (case v1_getObjectTree c urn view_guid ''EMEA'' token of
                     None \<Rightarrow>
                       (ErrorJson 500 ''Failed to fetch all properties'',
                        [GetAuthTokens, GetAllProperties urn view_guid ''EMEA'' token,
                         GetObjectTree urn view_guid ''EMEA'' token])
                   | Some objectTree \<Rightarrow>
                       (Json \<lparr>res_isProcessing = False,
                              res_properties = apl_properties allProperties,
                              res_objectTreeWithProperties =
                                merge objectTree (apl_properties allProperties)\<rparr>,
                        [GetAuthTokens, GetAllProperties urn view_guid ''EMEA'' token,
                         GetObjectTree urn view_guid ''EMEA'' token]))
                else
                  (Json \<lparr>res_isProcessing = True, res_properties = [],
                         res_objectTreeWithProperties = []\<rparr>,
                   [GetAuthTokens, GetAllProperties urn view_guid ''EMEA'' token]))))"

section \<open>The readiness poll of the page\<close>

text \<open>
  page.tsx. The part of the component state that \<^verbatim>\<open>handleModelViewSelect\<close> writes:
  \<^verbatim>\<open>isLoading\<close>, \<^verbatim>\<open>selectedVersionId\<close>, \<^verbatim>\<open>properties\<close>, \<^verbatim>\<open>objectTree\<close> and \<^verbatim>\<open>error\<close>
  (prefixed: \<^verbatim>\<open>isLoading\<close> and \<^verbatim>\<open>properties\<close> are node fields as well).
\<close>

record PageState =
  page_isLoading :: bool
  page_selectedVersionId :: "string option"
  page_properties :: "PropertiesDataCollection list"
  page_objectTree :: "ObjectTreeData list"
  page_error :: "string option"

text \<open>
  What one \<^verbatim>\<open>await fetch(...)\<close> followed by \<^verbatim>\<open>await res.json()\<close> gives the loop: a rejected
  promise with the message of its error, a response that is not \<^verbatim>\<open>ok\<close> with its
  \<^verbatim>\<open>status\<close> and \<^verbatim>\<open>statusText\<close>, or the parsed body of a response that is \<^verbatim>\<open>ok\<close>.
\<close>

datatype Fetched = Rejected string | NotOk nat string | Data AllPropertiesBody

text \<open>What the loop does to the outside, in order.\<close>

datatype Event = Fetch string | Sleep nat

fun isFetch :: "Event \<Rightarrow> bool" where
  "isFetch (Fetch url) = True"
| "isFetch (Sleep ms) = False"

definition maxAttempts :: nat where
  "maxAttempts = 150"

text \<open>A number inside a template literal: its decimal digits.\<close>

fun showNat :: "nat \<Rightarrow> string" where
  "showNat n =
     (if n < 10 then [''0123456789'' ! n]
      else showNat (n div 10) @ [''0123456789'' ! (n mod 10)])"

declare showNat.simps [simp del]

text \<open>
  \<^verbatim>\<open>/api/modelDerivate/${region}/${encodedUrn}/views/${viewGuid}/allProperties\<close>
\<close>

definition pollUrl :: "string \<Rightarrow> string \<Rightarrow> string \<Rightarrow> string" where
  "pollUrl region urn viewGuid =
     ''/api/modelDerivate/'' @ region @ ''/'' @ urn @ ''/views/'' @ viewGuid @ ''/allProperties''"

text \<open>
  The statements of \<^verbatim>\<open>handleModelViewSelect\<close> before the loop:
  \<^verbatim>\<open>
  setLoading(true);
  setError(null);
  const encodedUrn = itemUrn.replace("/", "%2F");
  setSelectedVersionId(encodedUrn);
  \<close>
\<close>

definition selectView :: "PageState \<Rightarrow> string \<Rightarrow> PageState" where
  "selectView s itemUrn =
     s\<lparr>page_isLoading := True, page_error := None,
       page_selectedVersionId := Some (encodedUrn itemUrn)\<rparr>"

text \<open>
  The statements of one iteration after the response has arrived, with the state the
  page has at that moment. The result says whether the loop goes on (to the sleep).
  \<^verbatim>\<open>
  if (!res.ok) {
    throw new Error(`Failed to load model data (${res.status}: ${res.statusText})`);
  }
  const data = await res.json();
  if (!data.isProcessing) {
    setProperties(data.properties);
    setObjectTree(data.objectTreeWithProperties);
    setLoading(false);
    return;
  }
  ...
  } catch (error) {
    setError(error instanceof Error ? error.message : "An unexpected error occurred");
    setLoading(false);
  }
  \<close>
  No statement compares the poll's identifier with \<^verbatim>\<open>selectedVersionId\<close>.
\<close>

definition onResponse :: "PageState \<Rightarrow> Fetched \<Rightarrow> PageState \<times> bool" where
  "onResponse s fetched =
     (case fetched of
        Rejected message \<Rightarrow> (s\<lparr>page_error := Some message, page_isLoading := False\<rparr>, False)
      | NotOk st statusText \<Rightarrow>
          (s\<lparr>page_error := Some (''Failed to load model data ('' @ showNat st @ '': ''
                                   @ statusText @ '')''),
             page_isLoading := False\<rparr>, False)
      | Data d \<Rightarrow>
          if \<not> res_isProcessing d then
            (s\<lparr>page_properties := res_properties d,
               page_objectTree := res_objectTreeWithProperties d,
               page_isLoading := False\<rparr>, False)
          else (s, True))"

text \<open>
  \<^verbatim>\<open>throw new Error("Timeout: ...")\<close> after the loop, caught by the same \<^verbatim>\<open>catch\<close>.
\<close>

definition onTimeout :: "PageState \<Rightarrow> PageState" where
  "onTimeout s =
     s\<lparr>page_error := Some ''Timeout: Model data is taking too long to load. Please try again later.'',
       page_isLoading := False\<rparr>"

text \<open>
  \<^verbatim>\<open>
  const maxAttempts = 150;
  let attempts = 0;
  while (attempts < maxAttempts) {
    const res = await fetch(...);
    ...
    await new Promise((resolve) => setTimeout(resolve, 1000));
    attempts++;
  }
  throw new Error("Timeout: ...");
  \<close>
  \<open>responses n\<close> is what the request of the iteration with \<^verbatim>\<open>attempts = n\<close> gives. The
  loop runs here with no other handler in between.
\<close>

function pollLoop ::
  "(nat \<Rightarrow> Fetched) \<Rightarrow> string \<Rightarrow> nat \<Rightarrow> PageState \<Rightarrow> Event list \<Rightarrow> PageState \<times> Event list" where
  "pollLoop responses url attempts s events =
     (if attempts < maxAttempts then
        (case onResponse s (responses attempts) of
           (s', False) \<Rightarrow> (s', events @ [Fetch url])
         | (s', True) \<Rightarrow>
             pollLoop responses url (attempts + 1) s' (events @ [Fetch url, Sleep 1000]))
      else (onTimeout s, events))"
  by pat_completeness auto
termination
  by (relation "measure (\<lambda>(responses, url, attempts, s, events). maxAttempts - attempts)") auto

declare pollLoop.simps [simp del]

definition handleModelViewSelect ::
  "(nat \<Rightarrow> Fetched) \<Rightarrow> string \<Rightarrow> PageState \<Rightarrow> string \<Rightarrow> string \<Rightarrow> string
     \<Rightarrow> PageState \<times> Event list" where
  "handleModelViewSelect responses region s type viewGuid itemUrn =
     pollLoop responses (pollUrl region (encodedUrn itemUrn) viewGuid) 0 (selectView s itemUrn) []"

text \<open>
  The content area of the page: the spinner while loading, else the error panel with its
  Dismiss button when there is an error message, else the tree and list views.
  \<^verbatim>\<open>{isLoading ? (...) : error ? (... <Button onClick={() => setError(null)}>Dismiss</Button>) : (...)}\<close>
\<close>

datatype Content = Spinner | ErrorPanel string | ModelViews

definition content :: "PageState \<Rightarrow> Content" where
  "content s =
     (if page_isLoading s then Spinner
      else (case page_error s of
              Some message \<Rightarrow> if message \<noteq> [] then ErrorPanel message else ModelViews
            | None \<Rightarrow> ModelViews))"

definition dismiss :: "PageState \<Rightarrow> PageState" where
  "dismiss s = s\<lparr>page_error := None\<rparr>"



section \<open>Properties of the merge\<close>

lemma foldl_set_lookup:
  "foldl (\<lambda>m prop. m(prop_objectid prop \<mapsto> prop)) m0 ps k =
     (if filter (\<lambda>p. prop_objectid p = k) ps = [] then m0 k
      else Some (last (filter (\<lambda>p. prop_objectid p = k) ps)))"
proof (induction ps arbitrary: m0)
  case Nil
  show ?case by simp
next
  case (Cons p ps)
  have "foldl (\<lambda>m prop. m(prop_objectid prop \<mapsto> prop)) m0 (p # ps) k =
        foldl (\<lambda>m prop. m(prop_objectid prop \<mapsto> prop)) (m0(prop_objectid p \<mapsto> p)) ps k"
    by (simp del: fun_upd_apply)
  also have "\<dots> = (if filter (\<lambda>p. prop_objectid p = k) ps = [] then (m0(prop_objectid p \<mapsto> p)) k
      else Some (last (filter (\<lambda>p. prop_objectid p = k) ps)))"
    by (rule Cons.IH)
  also have "\<dots> = (if filter (\<lambda>p. prop_objectid p = k) (p # ps) = [] then m0 k
      else Some (last (filter (\<lambda>p. prop_objectid p = k) (p # ps))))"
    by simp
  finally show ?case .
qed

lemma propertiesMap_lookup:
  "propertiesMap ps k =
     (if filter (\<lambda>p. prop_objectid p = k) ps = [] then None
      else Some (last (filter (\<lambda>p. prop_objectid p = k) ps)))"
  unfolding propertiesMap_def by (simp add: foldl_set_lookup)

lemma propertiesMap_eq_None: "propertiesMap ps k = None \<longleftrightarrow> k \<notin> prop_objectid ` set ps"
  by (auto simp: propertiesMap_lookup filter_empty_conv)

lemma propertiesMap_SomeD:
  assumes "propertiesMap ps k = Some r"
  shows "r \<in> set ps \<and> prop_objectid r = k"
proof -
  from assms have f: "filter (\<lambda>p. prop_objectid p = k) ps \<noteq> []"
    and r: "r = last (filter (\<lambda>p. prop_objectid p = k) ps)"
    by (auto simp: propertiesMap_lookup split: if_splits)
  from f have "last (filter (\<lambda>p. prop_objectid p = k) ps) \<in> set (filter (\<lambda>p. prop_objectid p = k) ps)"
    by (rule last_in_set)
  with r show ?thesis by simp
qed

lemma propertiesMap_last_wins:
  assumes "\<forall>y \<in> set ys. prop_objectid y \<noteq> prop_objectid b"
  shows "propertiesMap (xs @ b # ys) (prop_objectid b) = Some b"
proof -
  have "filter (\<lambda>p. prop_objectid p = prop_objectid b) ys = []"
    using assms by (simp add: filter_empty_conv)
  then show ?thesis
    by (simp add: propertiesMap_lookup)
qed

lemma length_attachProperties: "length (attachProperties pm os) = length os"
  by (induction os) simp_all

lemma attach_pointwise:
  "list_all2 (\<lambda>n n'. objectid n' = objectid n \<and> name n' = name n
        \<and> map_option length (objects n') = map_option length (objects n)
        \<and> properties n' = (case pm (objectid n) of Some r \<Rightarrow> Some (prop_properties r) | None \<Rightarrow> properties n))
     (allObjects T) (allObjects (attachProperties pm T))"
  and "list_all2 (\<lambda>n n'. objectid n' = objectid n \<and> name n' = name n
        \<and> map_option length (objects n') = map_option length (objects n)
        \<and> properties n' = (case pm (objectid n) of Some r \<Rightarrow> Some (prop_properties r) | None \<Rightarrow> properties n))
     (objectAndBelow obj) (objectAndBelow (attachObject pm obj))"
proof (induction pm T and pm obj rule: attachProperties_attachObject.induct)
  case (1 pm)
  show ?case by simp
next
  case (2 pm object rest)
  then show ?case by (simp add: list_all2_appendI)
next
  case (3 pm oid nm objs props)
  then show ?case by (cases objs) (simp_all add: length_attachProperties split: option.splits)
qed

text \<open>
  Claim C1. The input forest is the one \<^verbatim>\<open>getObjectTree\<close> returns: its nodes are
  \<^verbatim>\<open>ObjectTreeDataObjects\<close>, which have no \<^verbatim>\<open>properties\<close> field. Walking the input and
  the merged forest side by side in document order, every node, at whatever depth and
  whether or not its ancestors matched, keeps its \<^verbatim>\<open>objectid\<close>, its \<^verbatim>\<open>name\<close> and its number
  of children; it has a \<^verbatim>\<open>properties\<close> field after the merge if and only if its
  \<^verbatim>\<open>objectid\<close> is the \<^verbatim>\<open>objectid\<close> of some record of the flat collection, that field is
  then the \<^verbatim>\<open>properties\<close> of such a record, and it is absent otherwise.
\<close>

theorem merge_attaches_iff_objectid_in_collection:
  assumes "\<forall>n \<in> set (allObjects T). properties n = None"
  shows "list_all2 (\<lambda>n n'. objectid n' = objectid n \<and> name n' = name n
        \<and> map_option length (objects n') = map_option length (objects n)
        \<and> (properties n' \<noteq> None \<longleftrightarrow> objectid n \<in> prop_objectid ` set P)
        \<and> (objectid n \<notin> prop_objectid ` set P \<longrightarrow> properties n' = None)
        \<and> (objectid n \<in> prop_objectid ` set P \<longrightarrow>
              (\<exists>r \<in> set P. prop_objectid r = objectid n \<and> properties n' = Some (prop_properties r))))
     (allObjects T) (allObjects (merge T P))"
proof -
  let ?pm = "propertiesMap P"
  have pw: "list_all2 (\<lambda>n n'. objectid n' = objectid n \<and> name n' = name n
        \<and> map_option length (objects n') = map_option length (objects n)
        \<and> properties n' = (case ?pm (objectid n) of Some r \<Rightarrow> Some (prop_properties r) | None \<Rightarrow> properties n))
     (allObjects T) (allObjects (merge T P))"
    unfolding merge_def by (rule attach_pointwise(1))
  show ?thesis
  proof (rule list.rel_mono_strong [OF pw])
    fix n n'
    assume n: "n \<in> set (allObjects T)"
      and h: "objectid n' = objectid n \<and> name n' = name n
        \<and> map_option length (objects n') = map_option length (objects n)
        \<and> properties n' = (case ?pm (objectid n) of Some r \<Rightarrow> Some (prop_properties r) | None \<Rightarrow> properties n)"
    from n assms have absent: "properties n = None" by blast
    have a: "properties n' \<noteq> None \<longleftrightarrow> objectid n \<in> prop_objectid ` set P"
      using h absent propertiesMap_eq_None [of P "objectid n"]
      by (auto split: option.splits)
    have b: "objectid n \<in> prop_objectid ` set P \<longrightarrow>
              (\<exists>r \<in> set P. prop_objectid r = objectid n \<and> properties n' = Some (prop_properties r))"
    proof
      assume "objectid n \<in> prop_objectid ` set P"
      then obtain r where r: "?pm (objectid n) = Some r"
        using propertiesMap_eq_None [of P "objectid n"] by auto
      from propertiesMap_SomeD [OF r] h r
      show "\<exists>r \<in> set P. prop_objectid r = objectid n \<and> properties n' = Some (prop_properties r)"
        by auto
    qed
    from h a b show "objectid n' = objectid n \<and> name n' = name n
        \<and> map_option length (objects n') = map_option length (objects n)
        \<and> (properties n' \<noteq> None \<longleftrightarrow> objectid n \<in> prop_objectid ` set P)
        \<and> (objectid n \<notin> prop_objectid ` set P \<longrightarrow> properties n' = None)
        \<and> (objectid n \<in> prop_objectid ` set P \<longrightarrow>
              (\<exists>r \<in> set P. prop_objectid r = objectid n \<and> properties n' = Some (prop_properties r)))"
      by blast
  qed
qed

text \<open>
  The example of the specification: a wall with a door below it, and one record for the
  door. The door gains \<^verbatim>\<open>properties.Dims.Width = "36"\<close> although its parent did not match;
  the wall stays without \<^verbatim>\<open>properties\<close>.
\<close>

theorem merge_attaches_iff_objectid_in_collection_witness:
  "map properties
      (allObjects [ObjectTreeData 1 ''Wall'' (Some [ObjectTreeData 2 ''Door'' None None]) None])
     = [None, None]
   \<and> list_all2 (\<lambda>n n'. objectid n' = objectid n \<and> name n' = name n
        \<and> map_option length (objects n') = map_option length (objects n)
        \<and> (properties n' \<noteq> None \<longleftrightarrow> objectid n \<in> prop_objectid `
              set [\<lparr>prop_objectid = 2, prop_name = ''Door'',
                    prop_properties = [(''Dims'', [(''Width'', ''36'')])]\<rparr>])
        \<and> (objectid n \<notin> prop_objectid `
              set [\<lparr>prop_objectid = 2, prop_name = ''Door'',
                    prop_properties = [(''Dims'', [(''Width'', ''36'')])]\<rparr>] \<longrightarrow> properties n' = None)
        \<and> (objectid n \<in> prop_objectid `
              set [\<lparr>prop_objectid = 2, prop_name = ''Door'',
                    prop_properties = [(''Dims'', [(''Width'', ''36'')])]\<rparr>] \<longrightarrow>
              (\<exists>r \<in> set [\<lparr>prop_objectid = 2, prop_name = ''Door'',
                    prop_properties = [(''Dims'', [(''Width'', ''36'')])]\<rparr>].
                  prop_objectid r = objectid n \<and> properties n' = Some (prop_properties r))))
     (allObjects [ObjectTreeData 1 ''Wall'' (Some [ObjectTreeData 2 ''Door'' None None]) None])
     (allObjects (merge [ObjectTreeData 1 ''Wall'' (Some [ObjectTreeData 2 ''Door'' None None]) None]
        [\<lparr>prop_objectid = 2, prop_name = ''Door'',
          prop_properties = [(''Dims'', [(''Width'', ''36'')])]\<rparr>]))
   \<and> merge [ObjectTreeData 1 ''Wall'' (Some [ObjectTreeData 2 ''Door'' None None]) None]
        [\<lparr>prop_objectid = 2, prop_name = ''Door'',
          prop_properties = [(''Dims'', [(''Width'', ''36'')])]\<rparr>]
     = [ObjectTreeData 1 ''Wall''
          (Some [ObjectTreeData 2 ''Door'' None (Some [(''Dims'', [(''Width'', ''36'')])])]) None]"
proof -
  have absent: "\<forall>n \<in> set (allObjects
      [ObjectTreeData 1 ''Wall'' (Some [ObjectTreeData 2 ''Door'' None None]) None]).
      properties n = None"
    by simp
  have result: "merge [ObjectTreeData 1 ''Wall'' (Some [ObjectTreeData 2 ''Door'' None None]) None]
        [\<lparr>prop_objectid = 2, prop_name = ''Door'',
          prop_properties = [(''Dims'', [(''Width'', ''36'')])]\<rparr>]
     = [ObjectTreeData 1 ''Wall''
          (Some [ObjectTreeData 2 ''Door'' None (Some [(''Dims'', [(''Width'', ''36'')])])]) None]"
    by (simp add: merge_def propertiesMap_def)
  have start: "map properties
      (allObjects [ObjectTreeData 1 ''Wall'' (Some [ObjectTreeData 2 ''Door'' None None]) None])
     = [None, None]"
    by simp
  from start result
    merge_attaches_iff_objectid_in_collection [OF absent,
      of "[\<lparr>prop_objectid = 2, prop_name = ''Door'',
           prop_properties = [(''Dims'', [(''Width'', ''36'')])]\<rparr>]"]
  show ?thesis by (intro conjI)
qed

text \<open>
  Claim C2. When several records of the flat collection have the same \<^verbatim>\<open>objectid\<close>, a
  tree node with that \<^verbatim>\<open>objectid\<close> carries the \<^verbatim>\<open>properties\<close> of the record that comes
  last in iteration order: whatever precedes \<open>B\<close> in the collection, if no record after
  \<open>B\<close> has \<open>B\<close>'s \<^verbatim>\<open>objectid\<close>, every node with that \<^verbatim>\<open>objectid\<close> carries \<open>B\<close>'s properties.
\<close>

theorem merge_duplicate_objectid_last_wins:
  assumes "\<forall>y \<in> set ys. prop_objectid y \<noteq> prop_objectid B"
    and "i < length (allObjects T)"
    and "objectid (allObjects T ! i) = prop_objectid B"
  shows "properties (allObjects (merge T (xs @ B # ys)) ! i) = Some (prop_properties B)"
proof -
  let ?pm = "propertiesMap (xs @ B # ys)"
  have "list_all2 (\<lambda>n n'. objectid n' = objectid n \<and> name n' = name n
        \<and> map_option length (objects n') = map_option length (objects n)
        \<and> properties n' = (case ?pm (objectid n) of Some r \<Rightarrow> Some (prop_properties r) | None \<Rightarrow> properties n))
     (allObjects T) (allObjects (merge T (xs @ B # ys)))"
    unfolding merge_def by (rule attach_pointwise(1))
  from list_all2_nthD [OF this assms(2)]
  have "properties (allObjects (merge T (xs @ B # ys)) ! i) =
      (case ?pm (objectid (allObjects T ! i)) of Some r \<Rightarrow> Some (prop_properties r)
       | None \<Rightarrow> properties (allObjects T ! i))"
    by simp
  also have "?pm (objectid (allObjects T ! i)) = Some B"
    using propertiesMap_last_wins [OF assms(1)] assms(3) by simp
  finally show ?thesis by simp
qed

text \<open>
  The test of the specification: the collection \<open>[A, B]\<close>, both with \<^verbatim>\<open>objectid\<close> 5; the
  node with \<^verbatim>\<open>objectid\<close> 5 carries \<open>B\<close>'s properties.
\<close>

theorem merge_duplicate_objectid_last_wins_witness:
  "properties (allObjects (merge [ObjectTreeData 5 ''Pipe'' None None]
      ([\<lparr>prop_objectid = 5, prop_name = ''Pipe'', prop_properties = [(''A'', [(''k'', ''a'')])]\<rparr>]
        @ \<lparr>prop_objectid = 5, prop_name = ''Pipe'', prop_properties = [(''B'', [(''k'', ''b'')])]\<rparr>
        # [])) ! 0)
     = Some [(''B'', [(''k'', ''b'')])]
   \<and> merge [ObjectTreeData 5 ''Pipe'' None None]
      [\<lparr>prop_objectid = 5, prop_name = ''Pipe'', prop_properties = [(''A'', [(''k'', ''a'')])]\<rparr>,
       \<lparr>prop_objectid = 5, prop_name = ''Pipe'', prop_properties = [(''B'', [(''k'', ''b'')])]\<rparr>]
     = [ObjectTreeData 5 ''Pipe'' None (Some [(''B'', [(''k'', ''b'')])])]"
proof -
  have later: "\<forall>y \<in> set []. prop_objectid y \<noteq> prop_objectid
      \<lparr>prop_objectid = 5, prop_name = ''Pipe'', prop_properties = [(''B'', [(''k'', ''b'')])]\<rparr>"
    by simp
  have idx: "0 < length (allObjects [ObjectTreeData 5 ''Pipe'' None None])"
    by simp
  have same: "objectid (allObjects [ObjectTreeData 5 ''Pipe'' None None] ! 0) = prop_objectid
      \<lparr>prop_objectid = 5, prop_name = ''Pipe'', prop_properties = [(''B'', [(''k'', ''b'')])]\<rparr>"
    by simp
  have run: "merge [ObjectTreeData 5 ''Pipe'' None None]
      [\<lparr>prop_objectid = 5, prop_name = ''Pipe'', prop_properties = [(''A'', [(''k'', ''a'')])]\<rparr>,
       \<lparr>prop_objectid = 5, prop_name = ''Pipe'', prop_properties = [(''B'', [(''k'', ''b'')])]\<rparr>]
     = [ObjectTreeData 5 ''Pipe'' None (Some [(''B'', [(''k'', ''b'')])])]"
    by (simp add: merge_def propertiesMap_def)
  from merge_duplicate_objectid_last_wins [OF later idx same,
      of "[\<lparr>prop_objectid = 5, prop_name = ''Pipe'', prop_properties = [(''A'', [(''k'', ''a'')])]\<rparr>]"]
    run
  show ?thesis by simp
qed

section \<open>Properties of the identifier encoding\<close>

lemma encodedUrn_Nil: "encodedUrn [] = []"
  unfolding encodedUrn_def by (subst replace.simps) simp

lemma encodedUrn_slash: "encodedUrn (CHR ''/'' # cs) = ''%2F'' @ cs"
  unfolding encodedUrn_def by (subst replace.simps) simp

lemma encodedUrn_other: "c \<noteq> CHR ''/'' \<Longrightarrow> encodedUrn (c # cs) = c # encodedUrn cs"
  unfolding encodedUrn_def by (subst replace.simps) simp

lemma decodedVersionId_Nil: "decodedVersionId [] = []"
  unfolding decodedVersionId_def by (subst replace.simps) simp

lemma decodedVersionId_hit: "decodedVersionId (''%2F'' @ zs) = CHR ''/'' # zs"
  unfolding decodedVersionId_def by (subst replace.simps) simp

lemma decodedVersionId_miss:
  "\<not> prefix ''%2F'' (c # cs) \<Longrightarrow> decodedVersionId (c # cs) = c # decodedVersionId cs"
  unfolding decodedVersionId_def by (subst replace.simps) auto

lemma prefix_escape_iff:
  "prefix ''%2F'' (c # encodedUrn cs) \<longleftrightarrow>
   prefix ''%2F'' (c # takeWhile (\<lambda>x. x \<noteq> CHR ''/'') cs)"
proof (cases cs)
  case Nil
  then show ?thesis by (simp add: encodedUrn_Nil)
next
  case (Cons a as)
  note cs = Cons
  show ?thesis
  proof (cases "a = CHR ''/''")
    case True
    with cs show ?thesis by (simp add: encodedUrn_slash)
  next
    case a: False
    show ?thesis
    proof (cases as)
      case Nil
      with cs a show ?thesis by (simp add: encodedUrn_other encodedUrn_Nil)
    next
      case (Cons b bs)
      with cs a show ?thesis
        by (cases "b = CHR ''/''") (simp_all add: encodedUrn_other encodedUrn_slash)
    qed
  qed
qed

lemma round_trip_iff:
  "decodedVersionId (encodedUrn s) = s \<longleftrightarrow>
   \<not> sublist ''%2F'' (takeWhile (\<lambda>x. x \<noteq> CHR ''/'') s)"
proof (induction s)
  case Nil
  show ?case by (simp add: encodedUrn_Nil decodedVersionId_Nil)
next
  case (Cons c cs)
  show ?case
  proof (cases "c = CHR ''/''")
    case True
    then show ?thesis
      using decodedVersionId_hit [of cs] by (simp add: encodedUrn_slash)
  next
    case c: False
    show ?thesis
    proof (cases "prefix ''%2F'' (c # encodedUrn cs)")
      case True
      then obtain zs where zs: "c # encodedUrn cs = ''%2F'' @ zs"
        by (auto simp: prefix_def)
      then have "decodedVersionId (c # encodedUrn cs) = CHR ''/'' # zs"
        by (simp only: decodedVersionId_hit)
      then have "decodedVersionId (encodedUrn (c # cs)) \<noteq> c # cs"
        using c by (simp add: encodedUrn_other)
      moreover from True have "prefix ''%2F'' (c # takeWhile (\<lambda>x. x \<noteq> CHR ''/'') cs)"
        using prefix_escape_iff by blast
      then have "sublist ''%2F'' (takeWhile (\<lambda>x. x \<noteq> CHR ''/'') (c # cs))"
        using c by (simp add: sublist_Cons_right)
      ultimately show ?thesis by simp
    next
      case False
      then have "decodedVersionId (encodedUrn (c # cs)) = c # decodedVersionId (encodedUrn cs)"
        using c by (simp add: encodedUrn_other decodedVersionId_miss)
      moreover from False have "\<not> prefix ''%2F'' (c # takeWhile (\<lambda>x. x \<noteq> CHR ''/'') cs)"
        using prefix_escape_iff by blast
      then have "sublist ''%2F'' (takeWhile (\<lambda>x. x \<noteq> CHR ''/'') (c # cs)) \<longleftrightarrow>
          sublist ''%2F'' (takeWhile (\<lambda>x. x \<noteq> CHR ''/'') cs)"
        using c by (auto simp: sublist_Cons_right)
      ultimately show ?thesis using Cons.IH by simp
    qed
  qed
qed

lemma escape_idem: "encodedUrn (decodedVersionId (encodedUrn s)) = encodedUrn s"
proof (induction s)
  case Nil
  show ?case by (simp add: encodedUrn_Nil decodedVersionId_Nil)
next
  case (Cons c cs)
  show ?case
  proof (cases "c = CHR ''/''")
    case True
    then show ?thesis
      using decodedVersionId_hit [of cs] by (simp add: encodedUrn_slash)
  next
    case c: False
    show ?thesis
    proof (cases "prefix ''%2F'' (c # encodedUrn cs)")
      case True
      then obtain zs where zs: "c # encodedUrn cs = ''%2F'' @ zs"
        by (auto simp: prefix_def)
      then have "decodedVersionId (c # encodedUrn cs) = CHR ''/'' # zs"
        by (simp only: decodedVersionId_hit)
      with zs c show ?thesis
        by (simp add: encodedUrn_other encodedUrn_slash)
    next
      case False
      then show ?thesis
        using c Cons.IH by (simp add: encodedUrn_other decodedVersionId_miss)
    qed
  qed
qed

lemma sextet_in_alphabet: "sextet n \<in> set base64Alphabet"
  unfolding sextet_def by (rule nth_mem) (simp add: base64Alphabet_def)

lemma sextet_not_percent: "sextet n \<noteq> CHR ''%''"
proof -
  have "CHR ''%'' \<notin> set base64Alphabet" by (simp add: base64Alphabet_def)
  with sextet_in_alphabet [of n] show ?thesis by metis
qed

lemma btoa_no_percent: "CHR ''%'' \<notin> set (btoa s)"
  by (induction s rule: btoa.induct) (simp_all add: Let_def sextet_not_percent [symmetric])

lemma replace_no_percent:
  "CHR ''%'' \<notin> set s \<Longrightarrow> \<not> sublist ''%2F'' (takeWhile (\<lambda>x. x \<noteq> CHR ''/'') s)"
proof
  assume a: "CHR ''%'' \<notin> set s" and b: "sublist ''%2F'' (takeWhile (\<lambda>x. x \<noteq> CHR ''/'') s)"
  from b have "set ''%2F'' \<subseteq> set (takeWhile (\<lambda>x. x \<noteq> CHR ''/'') s)"
    by (rule set_mono_sublist)
  then have "CHR ''%'' \<in> set (takeWhile (\<lambda>x. x \<noteq> CHR ''/'') s)" by simp
  then have "CHR ''%'' \<in> set s" by (rule set_takeWhileD [THEN conjunct1])
  with a show False by simp
qed

lemma decode_encodedVersion: "decodedVersionId (encodedVersion v) = btoa v"
proof -
  have "decodedVersionId (encodedUrn (btoa v)) = btoa v"
    using replace_no_percent [OF btoa_no_percent [of v]] by (simp add: round_trip_iff)
  then show ?thesis by (simp add: encodedVersion_def encodedUrn_def)
qed

text \<open>
  Claim C5, as stated, does not hold. The page escapes the first \<^verbatim>\<open>/\<close> of the identifier
  and the route handler turns the first \<^verbatim>\<open>%2F\<close> back into \<^verbatim>\<open>/\<close>: an identifier that
  already contains \<^verbatim>\<open>%2F\<close> before its first \<^verbatim>\<open>/\<close> does not come back. The sidebar
  applies \<^verbatim>\<open>btoa\<close> before escaping, and the handler does not undo \<^verbatim>\<open>btoa\<close>: what comes
  back is the base64 text, not the identifier.
\<close>

theorem version_id_round_trip_counterexample:
  "CHR ''/'' \<in> set ''%2F/''
   \<and> encodedUrn ''%2F/'' = ''%2F%2F''
   \<and> decodedVersionId (encodedUrn ''%2F/'') = ''/%2F''
   \<and> decodedVersionId (encodedUrn ''%2F/'') \<noteq> ''%2F/''
   \<and> CHR ''/'' \<in> set ''a/b''
   \<and> encodedVersion ''a/b'' = ''YS9i''
   \<and> decodedVersionId (encodedVersion ''a/b'') \<noteq> ''a/b''"
  by (simp add: decodedVersionId_def encodedUrn_def encodedVersion_def sextet_def
      base64Alphabet_def replace.simps)

text \<open>
  Claim C5, amended. Escaping and unescaping are exact on every identifier in which
  \<^verbatim>\<open>%2F\<close> does not occur before the first \<^verbatim>\<open>/\<close>, and only on those; in particular on every
  text without \<^verbatim>\<open>%\<close>, such as the base64 texts the program passes. Escaping the decoded
  text gives the escaped text again, for every identifier. For the sidebar's encoding
  the handler recovers exactly the base64 text \<^verbatim>\<open>btoa(version)\<close>.
\<close>

theorem version_id_round_trip_amended:
  "(decodedVersionId (encodedUrn s) = s \<longleftrightarrow>
      \<not> sublist ''%2F'' (takeWhile (\<lambda>x. x \<noteq> CHR ''/'') s))
   \<and> (CHR ''%'' \<notin> set s \<longrightarrow> decodedVersionId (encodedUrn s) = s)
   \<and> encodedUrn (decodedVersionId (encodedUrn s)) = encodedUrn s
   \<and> decodedVersionId (encodedVersion v) = btoa v"
proof (intro conjI impI)
  show "decodedVersionId (encodedUrn s) = s \<longleftrightarrow>
      \<not> sublist ''%2F'' (takeWhile (\<lambda>x. x \<noteq> CHR ''/'') s)"
    by (rule round_trip_iff)
  show "decodedVersionId (encodedUrn s) = s" if "CHR ''%'' \<notin> set s"
    using replace_no_percent [OF that] by (simp add: round_trip_iff)
  show "encodedUrn (decodedVersionId (encodedUrn s)) = encodedUrn s"
    by (rule escape_idem)
  show "decodedVersionId (encodedVersion v) = btoa v"
    by (rule decode_encodedVersion)
qed

text \<open>
  A base64 text with two \<^verbatim>\<open>/\<close>: only the first is escaped, and the handler restores it.
\<close>

theorem version_id_round_trip_amended_witness:
  "CHR ''%'' \<notin> set ''dXJu/Pz8/''
   \<and> encodedUrn ''dXJu/Pz8/'' = ''dXJu%2FPz8/''
   \<and> decodedVersionId (encodedUrn ''dXJu/Pz8/'') = ''dXJu/Pz8/''
   \<and> encodedUrn (decodedVersionId (encodedUrn ''dXJu/Pz8/'')) = encodedUrn ''dXJu/Pz8/''
   \<and> btoa ''???'' = ''Pz8/''
   \<and> decodedVersionId (encodedVersion ''???'') = btoa ''???''"
proof -
  have clean: "CHR ''%'' \<notin> set ''dXJu/Pz8/''" by simp
  have enc: "encodedUrn ''dXJu/Pz8/'' = ''dXJu%2FPz8/''"
    by (simp add: encodedUrn_def replace.simps)
  have b64: "btoa ''???'' = ''Pz8/''"
    by (simp add: sextet_def base64Alphabet_def)
  from version_id_round_trip_amended [of "''dXJu/Pz8/''" "''???''"] clean enc b64
  show ?thesis by blast
qed

section \<open>Properties of the navigation tree\<close>

















lemma allNodes_have_paths:
  "n \<in> set (allNodes nodes) \<Longrightarrow> \<exists>p. nodeAt nodes p = Some n"
  "n \<in> set (nodeAndBelow node) \<Longrightarrow> n = node \<or> (\<exists>cs p. children node = Some cs \<and> nodeAt cs p = Some n)"
proof (induction nodes and node rule: allNodes_nodeAndBelow.induct)
  case 1
  then show ?case by simp
next
  case (2 node rest)
  from "2.prems" consider "n \<in> set (nodeAndBelow node)" | "n \<in> set (allNodes rest)" by auto
  then show ?case
  proof cases
    case 1
    from "2.IH"(1) [OF 1] show ?thesis
    proof
      assume "n = node"
      then have "nodeAt (node # rest) [0] = Some n" by simp
      then show ?thesis ..
    next
      assume "\<exists>cs p. children node = Some cs \<and> nodeAt cs p = Some n"
      then obtain cs p where cs: "children node = Some cs" and p: "nodeAt cs p = Some n" by blast
      from p obtain j path where "p = j # path" by (cases p) auto
      with cs p have "nodeAt (node # rest) (0 # j # path) = Some n" by simp
      then show ?thesis ..
    qed
  next
    case 2
    from "2.IH"(2) [OF 2] obtain p where p: "nodeAt rest p = Some n" ..
    then obtain k path where kp: "p = k # path" by (cases p) auto
    with p have "nodeAt (node # rest) (Suc k # path) = Some n"
      by (cases path) (auto split: if_splits)
    then show ?thesis ..
  qed
next
  case (3 nid nm ty ch op ld pa)
  then show ?case by (cases ch) auto
qed

lemma findNode_updateNode:
  "u_id u = None \<Longrightarrow>
   findNode (updateNode nodes i u) i = map_option (\<lambda>n. spread n u) (findNode nodes i)"
proof (induction nodes i rule: findNode.induct)
  case (1 i)
  show ?case by simp
next
  case (2 nid nm ty ch op ld pa rest i)
  show ?case
  proof (cases "nid = i")
    case True
    with "2.prems" show ?thesis by (simp add: spread_def)
  next
    case ne: False
    show ?thesis
    proof (cases ch)
      case None
      with ne "2.IH"(1) "2.prems" show ?thesis by simp
    next
      case (Some cs)
      show ?thesis
      proof (cases "findNode cs i")
        case None
        with Some ne "2.IH"(2,3) "2.prems" show ?thesis by simp
      next
        case found: (Some a)
        with Some ne "2.IH"(2) "2.prems" show ?thesis by simp
      qed
    qed
  qed
qed

lemma updateNode_twice:
  "u_id u1 = None \<Longrightarrow> (\<forall>n. spread (spread n u1) u2 = spread n u3) \<Longrightarrow>
     updateNode (updateNode nodes i u1) i u2 = updateNode nodes i u3"
  "u_id u1 = None \<Longrightarrow> (\<forall>n. spread (spread n u1) u2 = spread n u3) \<Longrightarrow>
     updateNodeIn (updateNodeIn node i u1) i u2 = updateNodeIn node i u3"
proof (induction nodes i u1 and node i u1 rule: updateNode_updateNodeIn.induct)
  case (1 i updates)
  show ?case by simp
next
  case (2 node rest i updates)
  then show ?case by simp
next
  case (3 nid nm ty ch op ld pa i updates)
  show ?case
  proof (cases "nid = i")
    case True
    have "node_id (spread (TreeNode nid nm ty ch op ld pa) updates) = i"
      using True "3.prems"(1) by (simp add: spread_def)
    then have "updateNodeIn (spread (TreeNode nid nm ty ch op ld pa) updates) i u2 =
        spread (spread (TreeNode nid nm ty ch op ld pa) updates) u2"
      by (cases "spread (TreeNode nid nm ty ch op ld pa) updates") simp
    with True "3.prems"(2) show ?thesis by simp
  next
    case False
    with 3 show ?thesis by (cases ch) simp_all
  qed
qed


lemma spread_open_close_open:
  "spread (spread n (noUpdates\<lparr>u_children := Some (Some kids), u_isOpen := Some (Some True),
       u_isLoading := Some (Some False)\<rparr>)) (noUpdates\<lparr>u_isOpen := Some (Some False)\<rparr>)
   = spread n (noUpdates\<lparr>u_children := Some (Some kids), u_isOpen := Some (Some False),
       u_isLoading := Some (Some False)\<rparr>)"
  "spread (spread n (noUpdates\<lparr>u_children := Some (Some kids), u_isOpen := Some (Some False),
       u_isLoading := Some (Some False)\<rparr>)) (noUpdates\<lparr>u_isOpen := Some (Some True)\<rparr>)
   = spread n (noUpdates\<lparr>u_children := Some (Some kids), u_isOpen := Some (Some True),
       u_isLoading := Some (Some False)\<rparr>)"
  by (simp_all add: spread_def noUpdates_def)



text \<open>
  Claim C6, as stated, does not hold for a node that is loading: \<^verbatim>\<open>toggleNode\<close> never
  reads \<^verbatim>\<open>isLoading\<close>. A hub as \<^verbatim>\<open>fetchHubs\<close> creates it is clicked: the request for its
  projects is sent and the hub is set to loading. Clicked again in that state, before any
  response, the same request is sent a second time.
\<close>

theorem toggleNode_loading_counterexample:
  "toggleNode ''US'' [TreeNode ''hub|h1'' ''Hub'' T_hub (Some []) (Some False) None None] ''hub|h1''
     = \<lparr>setTree = Some [TreeNode ''hub|h1'' ''Hub'' T_hub (Some []) (Some False) (Some True) None],
        request = Some ''/api/hubs/h1/projects''\<rparr>
   \<and> toggleNode ''US'' [TreeNode ''hub|h1'' ''Hub'' T_hub (Some []) (Some False) (Some True) None]
        ''hub|h1''
     = \<lparr>setTree = Some [TreeNode ''hub|h1'' ''Hub'' T_hub (Some []) (Some False) (Some True) None],
        request = Some ''/api/hubs/h1/projects''\<rparr>"
  by (simp add: toggleNode_def fetchUrl_def part_def spread_def noUpdates_def)

text \<open>
  Claim C6, amended. A click on a node that is open sends no request: it only closes the
  node. A click on a node that is not open and has no children sends the request of the
  node's kind and sets the node to loading; a further click on the node in that state
  sends the same request again.
\<close>

theorem toggleNode_fetches_amended:
  assumes "findNode tree nodeId = Some node"
  shows "(isOpen node = Some True \<longrightarrow>
            toggleNode region tree nodeId =
              \<lparr>setTree = Some (updateNode tree nodeId (noUpdates\<lparr>u_isOpen := Some (Some False)\<rparr>)),
               request = None\<rparr>)
    \<and> (isOpen node \<noteq> Some True \<and> (children node = None \<or> children node = Some [])
          \<and> fetchUrl region nodeId = Some url \<longrightarrow>
            toggleNode region tree nodeId =
              \<lparr>setTree = Some (updateNode tree nodeId (noUpdates\<lparr>u_isLoading := Some (Some True)\<rparr>)),
               request = Some url\<rparr>
            \<and> map_option isLoading
                 (findNode (updateNode tree nodeId (noUpdates\<lparr>u_isLoading := Some (Some True)\<rparr>)) nodeId)
               = Some (Some True)
            \<and> request (toggleNode region
                 (updateNode tree nodeId (noUpdates\<lparr>u_isLoading := Some (Some True)\<rparr>)) nodeId)
               = Some url)"
proof (intro conjI impI)
  assume "isOpen node = Some True"
  with assms show "toggleNode region tree nodeId =
              \<lparr>setTree = Some (updateNode tree nodeId (noUpdates\<lparr>u_isOpen := Some (Some False)\<rparr>)),
               request = None\<rparr>"
    by (simp add: toggleNode_def)
next
  let ?load = "noUpdates\<lparr>u_isLoading := Some (Some True)\<rparr>"
  assume h: "isOpen node \<noteq> Some True \<and> (children node = None \<or> children node = Some [])
          \<and> fetchUrl region nodeId = Some url"
  with assms show "toggleNode region tree nodeId =
      \<lparr>setTree = Some (updateNode tree nodeId ?load), request = Some url\<rparr>"
    by (auto simp: toggleNode_def)
  have found: "findNode (updateNode tree nodeId ?load) nodeId = Some (spread node ?load)"
    using assms by (simp add: findNode_updateNode noUpdates_def)
  then show "map_option isLoading (findNode (updateNode tree nodeId ?load) nodeId)
      = Some (Some True)"
    by (simp add: spread_def noUpdates_def)
  have "isOpen (spread node ?load) = isOpen node"
    and "children (spread node ?load) = children node"
    by (simp_all add: spread_def noUpdates_def)
  with found h show "request (toggleNode region (updateNode tree nodeId ?load) nodeId) = Some url"
    by (auto simp: toggleNode_def)
qed

text \<open>
  An open hub is closed without a request; a closed hub without children is requested on
  the first click and again on the second.
\<close>

theorem toggleNode_fetches_amended_witness:
  "toggleNode ''US''
      [TreeNode ''hub|h1'' ''Hub'' T_hub
         (Some [TreeNode ''project|h1|p1'' ''P'' T_project (Some []) (Some False) None None])
         (Some True) (Some False) None] ''hub|h1''
     = \<lparr>setTree = Some (updateNode
          [TreeNode ''hub|h1'' ''Hub'' T_hub
             (Some [TreeNode ''project|h1|p1'' ''P'' T_project (Some []) (Some False) None None])
             (Some True) (Some False) None] ''hub|h1'' (noUpdates\<lparr>u_isOpen := Some (Some False)\<rparr>)),
        request = None\<rparr>
   \<and> fetchUrl ''US'' ''hub|h2'' = Some ''/api/hubs/h2/projects''
   \<and> request (toggleNode ''US''
        [TreeNode ''hub|h2'' ''Hub'' T_hub (Some []) (Some False) None None] ''hub|h2'')
     = Some ''/api/hubs/h2/projects''
   \<and> request (toggleNode ''US''
        (updateNode [TreeNode ''hub|h2'' ''Hub'' T_hub (Some []) (Some False) None None] ''hub|h2''
           (noUpdates\<lparr>u_isLoading := Some (Some True)\<rparr>)) ''hub|h2'')
     = Some ''/api/hubs/h2/projects''"
proof -
  let ?open = "TreeNode ''hub|h1'' ''Hub'' T_hub
         (Some [TreeNode ''project|h1|p1'' ''P'' T_project (Some []) (Some False) None None])
         (Some True) (Some False) None"
  let ?closed = "TreeNode ''hub|h2'' ''Hub'' T_hub (Some []) (Some False) None None"
  have f1: "findNode [?open] ''hub|h1'' = Some ?open" by simp
  have o1: "isOpen ?open = Some True" by simp
  have f2: "findNode [?closed] ''hub|h2'' = Some ?closed" by simp
  have url: "fetchUrl ''US'' ''hub|h2'' = Some ''/api/hubs/h2/projects''"
    by (simp add: fetchUrl_def part_def)
  have c2: "isOpen ?closed \<noteq> Some True \<and> (children ?closed = None \<or> children ?closed = Some [])
      \<and> fetchUrl ''US'' ''hub|h2'' = Some ''/api/hubs/h2/projects''"
    using url by simp
  from toggleNode_fetches_amended [OF f1, of "''US''" "''x''"] o1
  have a: "toggleNode ''US'' [?open] ''hub|h1''
     = \<lparr>setTree = Some (updateNode [?open] ''hub|h1'' (noUpdates\<lparr>u_isOpen := Some (Some False)\<rparr>)),
        request = None\<rparr>"
    by blast
  from toggleNode_fetches_amended [OF f2, of "''US''" "''/api/hubs/h2/projects''"] c2
  have b: "toggleNode ''US'' [?closed] ''hub|h2'' =
      \<lparr>setTree = Some (updateNode [?closed] ''hub|h2'' (noUpdates\<lparr>u_isLoading := Some (Some True)\<rparr>)),
       request = Some ''/api/hubs/h2/projects''\<rparr>"
    and c: "request (toggleNode ''US''
        (updateNode [?closed] ''hub|h2'' (noUpdates\<lparr>u_isLoading := Some (Some True)\<rparr>)) ''hub|h2'')
      = Some ''/api/hubs/h2/projects''"
    by blast+
  from b have b': "request (toggleNode ''US'' [?closed] ''hub|h2'') = Some ''/api/hubs/h2/projects''"
    by simp
  from a url b' c show ?thesis by (intro conjI)
qed

text \<open>
  Claim C7, as stated, does not hold. A node whose expansion returned no children (a hub
  without projects, an empty folder) is fetched again: \<^verbatim>\<open>toggleNode\<close> takes an empty
  \<^verbatim>\<open>children\<close> list for "not yet loaded". The hub is expanded with an empty list of
  projects, then closed; the next click sends the request again.

  Children that were fetched can also be lost. The continuation of \<^verbatim>\<open>toggleNode\<close> writes
  the tree from the \<^verbatim>\<open>tree\<close> of the render in which its node was clicked. Hub h1 is
  clicked, then hub h2 while h1 is loading; h1's project arrives and h1 is closed; then
  h2's project arrives, and h2's continuation writes its own older tree, in which h1 is
  loading and has no children. The next click on h1 sends h1's request again.
\<close>

theorem toggleNode_reexpand_counterexample:
  "toggleNodeResumed (\<lambda>a b. 0)
      [TreeNode ''hub|h1'' ''Hub'' T_hub (Some []) (Some False) None None] ''hub|h1''
      (Some \<lparr>ok = True, status = 200, body = Projects []\<rparr>)
     = [TreeNode ''hub|h1'' ''Hub'' T_hub (Some []) (Some True) (Some False) None]
   \<and> toggleNode ''US''
        [TreeNode ''hub|h1'' ''Hub'' T_hub (Some []) (Some True) (Some False) None] ''hub|h1''
     = \<lparr>setTree = Some [TreeNode ''hub|h1'' ''Hub'' T_hub (Some []) (Some False) (Some False) None],
        request = None\<rparr>
   \<and> request (toggleNode ''US''
        [TreeNode ''hub|h1'' ''Hub'' T_hub (Some []) (Some False) (Some False) None] ''hub|h1'')
     = Some ''/api/hubs/h1/projects''
   \<and> toggleNode ''US''
        [TreeNode ''hub|h1'' ''One'' T_hub (Some []) (Some False) None None,
         TreeNode ''hub|h2'' ''Two'' T_hub (Some []) (Some False) None None] ''hub|h1''
     = \<lparr>setTree = Some
          [TreeNode ''hub|h1'' ''One'' T_hub (Some []) (Some False) (Some True) None,
           TreeNode ''hub|h2'' ''Two'' T_hub (Some []) (Some False) None None],
        request = Some ''/api/hubs/h1/projects''\<rparr>
   \<and> toggleNode ''US''
        [TreeNode ''hub|h1'' ''One'' T_hub (Some []) (Some False) (Some True) None,
         TreeNode ''hub|h2'' ''Two'' T_hub (Some []) (Some False) None None] ''hub|h2''
     = \<lparr>setTree = Some
          [TreeNode ''hub|h1'' ''One'' T_hub (Some []) (Some False) (Some True) None,
           TreeNode ''hub|h2'' ''Two'' T_hub (Some []) (Some False) (Some True) None],
        request = Some ''/api/hubs/h2/projects''\<rparr>
   \<and> toggleNodeResumed (\<lambda>a b. 0)
        [TreeNode ''hub|h1'' ''One'' T_hub (Some []) (Some False) None None,
         TreeNode ''hub|h2'' ''Two'' T_hub (Some []) (Some False) None None] ''hub|h1''
        (Some \<lparr>ok = True, status = 200,
           body = Projects [\<lparr>Project_id = ''p1'', Project_name = ''P'',
                    Project_accountId = ''a'', Project_type = ''ACC''\<rparr>]\<rparr>)
     = [TreeNode ''hub|h1'' ''One'' T_hub
          (Some [TreeNode ''project|h1|p1'' ''P'' T_project (Some []) (Some False) None None])
          (Some True) (Some False) None,
        TreeNode ''hub|h2'' ''Two'' T_hub (Some []) (Some False) None None]
   \<and> toggleNode ''US''
        [TreeNode ''hub|h1'' ''One'' T_hub
          (Some [TreeNode ''project|h1|p1'' ''P'' T_project (Some []) (Some False) None None])
          (Some True) (Some False) None,
         TreeNode ''hub|h2'' ''Two'' T_hub (Some []) (Some False) None None] ''hub|h1''
     = \<lparr>setTree = Some
          [TreeNode ''hub|h1'' ''One'' T_hub
            (Some [TreeNode ''project|h1|p1'' ''P'' T_project (Some []) (Some False) None None])
            (Some False) (Some False) None,
           TreeNode ''hub|h2'' ''Two'' T_hub (Some []) (Some False) None None],
        request = None\<rparr>
   \<and> toggleNodeResumed (\<lambda>a b. 0)
        [TreeNode ''hub|h1'' ''One'' T_hub (Some []) (Some False) (Some True) None,
         TreeNode ''hub|h2'' ''Two'' T_hub (Some []) (Some False) None None] ''hub|h2''
        (Some \<lparr>ok = True, status = 200,
           body = Projects [\<lparr>Project_id = ''q1'', Project_name = ''Q'',
                    Project_accountId = ''a'', Project_type = ''ACC''\<rparr>]\<rparr>)
     = [TreeNode ''hub|h1'' ''One'' T_hub (Some []) (Some False) (Some True) None,
        TreeNode ''hub|h2'' ''Two'' T_hub
          (Some [TreeNode ''project|h2|q1'' ''Q'' T_project (Some []) (Some False) None None])
          (Some True) (Some False) None]
   \<and> request (toggleNode ''US''
        [TreeNode ''hub|h1'' ''One'' T_hub (Some []) (Some False) (Some True) None,
         TreeNode ''hub|h2'' ''Two'' T_hub
           (Some [TreeNode ''project|h2|q1'' ''Q'' T_project (Some []) (Some False) None None])
           (Some True) (Some False) None] ''hub|h1'')
     = Some ''/api/hubs/h1/projects''"
  by (simp add: toggleNodeResumed_def fetchedChildren_def sortNodesByName_def toggleNode_def
      fetchUrl_def part_def spread_def noUpdates_def)

text \<open>
  Claim C7, amended. Let the response of a node's first expansion give the list \<open>kids\<close> of
  children, and let the two clicks that follow act on the trees this node's own steps
  wrote: the first click on the tree the expansion's continuation wrote, the second on
  the tree the first click wrote. Then the first click closes the node without a
  request. When \<open>kids\<close> is not empty, the node holds exactly \<open>kids\<close> after the expansion,
  and the second click opens it without a request and gives back the very tree of the
  first expansion, children included. When \<open>kids\<close> is empty, the second click sends the
  request of the node again. What the tree holds after the continuation of another
  node's expansion has written it in between is not part of this statement.
\<close>

theorem toggleNode_reexpand_amended:
  assumes "findNode tree nodeId = Some node"
    and "fetchedChildren localeCompare nodeId response = Some kids"
  shows "toggleNode region (toggleNodeResumed localeCompare tree nodeId response) nodeId =
        \<lparr>setTree = Some (updateNode (toggleNodeResumed localeCompare tree nodeId response) nodeId
            (noUpdates\<lparr>u_isOpen := Some (Some False)\<rparr>)),
         request = None\<rparr>
    \<and> (kids \<noteq> [] \<longrightarrow>
        map_option children (findNode (toggleNodeResumed localeCompare tree nodeId response) nodeId)
           = Some (Some kids)
        \<and> toggleNode region
            (updateNode (toggleNodeResumed localeCompare tree nodeId response) nodeId
                (noUpdates\<lparr>u_isOpen := Some (Some False)\<rparr>)) nodeId =
            \<lparr>setTree = Some (toggleNodeResumed localeCompare tree nodeId response),
             request = None\<rparr>)
    \<and> (kids = [] \<and> fetchUrl region nodeId = Some url \<longrightarrow>
        request (toggleNode region
            (updateNode (toggleNodeResumed localeCompare tree nodeId response) nodeId
                (noUpdates\<lparr>u_isOpen := Some (Some False)\<rparr>)) nodeId) = Some url)"
proof -
  let ?U = "noUpdates\<lparr>u_children := Some (Some kids), u_isOpen := Some (Some True),
       u_isLoading := Some (Some False)\<rparr>"
  let ?UC = "noUpdates\<lparr>u_children := Some (Some kids), u_isOpen := Some (Some False),
       u_isLoading := Some (Some False)\<rparr>"
  let ?C = "noUpdates\<lparr>u_isOpen := Some (Some False)\<rparr>"
  let ?O = "noUpdates\<lparr>u_isOpen := Some (Some True)\<rparr>"
  have exp: "toggleNodeResumed localeCompare tree nodeId response = updateNode tree nodeId ?U"
    using assms(2) by (simp add: toggleNodeResumed_def)
  have f1: "findNode (updateNode tree nodeId ?U) nodeId = Some (spread node ?U)"
    using assms(1) by (simp add: findNode_updateNode noUpdates_def)
  have col: "updateNode (updateNode tree nodeId ?U) nodeId ?C = updateNode tree nodeId ?UC"
    by (rule updateNode_twice(1)) (simp_all add: noUpdates_def spread_def)
  have f2: "findNode (updateNode tree nodeId ?UC) nodeId = Some (spread node ?UC)"
    using assms(1) by (simp add: findNode_updateNode noUpdates_def)
  have reo: "updateNode (updateNode tree nodeId ?UC) nodeId ?O = updateNode tree nodeId ?U"
    by (rule updateNode_twice(1)) (simp_all add: noUpdates_def spread_def)
  have a: "map_option children (findNode (updateNode tree nodeId ?U) nodeId) = Some (Some kids)"
    using f1 by (simp add: spread_def noUpdates_def)
  have b: "toggleNode region (updateNode tree nodeId ?U) nodeId =
      \<lparr>setTree = Some (updateNode (updateNode tree nodeId ?U) nodeId ?C), request = None\<rparr>"
    using f1 by (simp add: toggleNode_def spread_def noUpdates_def)
  have c: "toggleNode region (updateNode tree nodeId ?UC) nodeId =
      \<lparr>setTree = Some (updateNode (updateNode tree nodeId ?UC) nodeId ?O), request = None\<rparr>"
    if "kids \<noteq> []"
    using f2 that by (simp add: toggleNode_def spread_def noUpdates_def)
  have d: "request (toggleNode region (updateNode tree nodeId ?UC) nodeId) = Some url"
    if "kids = []" and "fetchUrl region nodeId = Some url"
    using f2 that by (simp add: toggleNode_def spread_def noUpdates_def)
  show ?thesis
    unfolding exp
  proof (intro conjI impI)
    show "toggleNode region (updateNode tree nodeId ?U) nodeId =
      \<lparr>setTree = Some (updateNode (updateNode tree nodeId ?U) nodeId ?C), request = None\<rparr>"
      by (rule b)
    show "map_option children (findNode (updateNode tree nodeId ?U) nodeId) = Some (Some kids)"
      by (rule a)
    show "toggleNode region (updateNode (updateNode tree nodeId ?U) nodeId ?C) nodeId =
        \<lparr>setTree = Some (updateNode tree nodeId ?U), request = None\<rparr>" if "kids \<noteq> []"
      using c [OF that] by (simp only: col reo)
    show "request (toggleNode region (updateNode (updateNode tree nodeId ?U) nodeId ?C) nodeId)
        = Some url" if h: "kids = [] \<and> fetchUrl region nodeId = Some url"
    proof -
      from h have "kids = []" and "fetchUrl region nodeId = Some url" by simp_all
      then have "request (toggleNode region (updateNode tree nodeId ?UC) nodeId) = Some url"
        by (rule d)
      then show ?thesis by (simp only: col)
    qed
  qed
qed

text \<open>
  A hub whose first expansion returns one project, and a hub whose first expansion
  returns none.
\<close>

theorem toggleNode_reexpand_amended_witness:
  "findNode [TreeNode ''hub|h1'' ''Hub'' T_hub (Some []) (Some False) None None] ''hub|h1''
     = Some (TreeNode ''hub|h1'' ''Hub'' T_hub (Some []) (Some False) None None)
   \<and> toggleNodeResumed (\<lambda>a b. 0)
        [TreeNode ''hub|h1'' ''Hub'' T_hub (Some []) (Some False) None None] ''hub|h1''
        (Some \<lparr>ok = True, status = 200,
           body = Projects [\<lparr>Project_id = ''p1'', Project_name = ''P'',
                    Project_accountId = ''a'', Project_type = ''ACC''\<rparr>]\<rparr>)
     = [TreeNode ''hub|h1'' ''Hub'' T_hub
          (Some [TreeNode ''project|h1|p1'' ''P'' T_project (Some []) (Some False) None None])
          (Some True) (Some False) None]
   \<and> toggleNode ''US''
        (updateNode
          [TreeNode ''hub|h1'' ''Hub'' T_hub
            (Some [TreeNode ''project|h1|p1'' ''P'' T_project (Some []) (Some False) None None])
            (Some True) (Some False) None] ''hub|h1'' (noUpdates\<lparr>u_isOpen := Some (Some False)\<rparr>))
        ''hub|h1''
     = \<lparr>setTree = Some
          [TreeNode ''hub|h1'' ''Hub'' T_hub
            (Some [TreeNode ''project|h1|p1'' ''P'' T_project (Some []) (Some False) None None])
            (Some True) (Some False) None],
        request = None\<rparr>
   \<and> toggleNodeResumed (\<lambda>a b. 0)
        [TreeNode ''hub|h1'' ''Hub'' T_hub (Some []) (Some False) None None] ''hub|h1''
        (Some \<lparr>ok = True, status = 200, body = Projects []\<rparr>)
     = [TreeNode ''hub|h1'' ''Hub'' T_hub (Some []) (Some True) (Some False) None]
   \<and> request (toggleNode ''US''
        (updateNode [TreeNode ''hub|h1'' ''Hub'' T_hub (Some []) (Some True) (Some False) None]
          ''hub|h1'' (noUpdates\<lparr>u_isOpen := Some (Some False)\<rparr>)) ''hub|h1'')
     = Some ''/api/hubs/h1/projects''"
proof -
  let ?t = "[TreeNode ''hub|h1'' ''Hub'' T_hub (Some []) (Some False) None None]"
  let ?r = "Some \<lparr>ok = True, status = 200,
           body = Projects [\<lparr>Project_id = ''p1'', Project_name = ''P'',
                    Project_accountId = ''a'', Project_type = ''ACC''\<rparr>]\<rparr>"
  let ?e = "Some \<lparr>ok = True, status = 200, body = Projects []\<rparr>"
  let ?kids = "[TreeNode ''project|h1|p1'' ''P'' T_project (Some []) (Some False) None None]"
  have f: "findNode ?t ''hub|h1'' = Some (TreeNode ''hub|h1'' ''Hub'' T_hub (Some []) (Some False) None None)"
    by simp
  have k: "fetchedChildren (\<lambda>a b. 0) ''hub|h1'' ?r = Some ?kids"
    by (simp add: fetchedChildren_def sortNodesByName_def part_def)
  have k0: "fetchedChildren (\<lambda>a b. 0) ''hub|h1'' ?e = Some []"
    by (simp add: fetchedChildren_def sortNodesByName_def part_def)
  have ne: "?kids \<noteq> []" by simp
  have url: "fetchUrl ''US'' ''hub|h1'' = Some ''/api/hubs/h1/projects''"
    by (simp add: fetchUrl_def part_def)
  have run: "toggleNodeResumed (\<lambda>a b. 0) ?t ''hub|h1'' ?r
     = [TreeNode ''hub|h1'' ''Hub'' T_hub (Some ?kids) (Some True) (Some False) None]"
    by (simp add: toggleNodeResumed_def k spread_def noUpdates_def)
  have run0: "toggleNodeResumed (\<lambda>a b. 0) ?t ''hub|h1'' ?e
     = [TreeNode ''hub|h1'' ''Hub'' T_hub (Some []) (Some True) (Some False) None]"
    by (simp add: toggleNodeResumed_def k0 spread_def noUpdates_def)
  from toggleNode_reexpand_amended [OF f k, of "''US''" "''x''"] ne
  have one: "toggleNode ''US''
        (updateNode (toggleNodeResumed (\<lambda>a b. 0) ?t ''hub|h1'' ?r) ''hub|h1''
            (noUpdates\<lparr>u_isOpen := Some (Some False)\<rparr>)) ''hub|h1'' =
       \<lparr>setTree = Some (toggleNodeResumed (\<lambda>a b. 0) ?t ''hub|h1'' ?r), request = None\<rparr>"
    by blast
  from toggleNode_reexpand_amended [OF f k0, of "''US''" "''/api/hubs/h1/projects''"] url
  have none: "request (toggleNode ''US''
        (updateNode (toggleNodeResumed (\<lambda>a b. 0) ?t ''hub|h1'' ?e) ''hub|h1''
            (noUpdates\<lparr>u_isOpen := Some (Some False)\<rparr>)) ''hub|h1'')
      = Some ''/api/hubs/h1/projects''"
    by blast
  from f run run0 one [unfolded run] none [unfolded run0]
  show ?thesis by (intro conjI)
qed

section \<open>Properties of the route handler and of the poll\<close>

lemma onResponse_processing:
  "res_isProcessing d \<Longrightarrow> onResponse s (Data d) = (s, True)"
  by (simp add: onResponse_def)

lemma onResponse_complete:
  "\<not> res_isProcessing d \<Longrightarrow>
   onResponse s (Data d) =
     (s\<lparr>page_properties := res_properties d,
        page_objectTree := res_objectTreeWithProperties d,
        page_isLoading := False\<rparr>, False)"
  by (simp add: onResponse_def)

lemma pollLoop_ready:
  assumes "k < maxAttempts"
    and "\<forall>i. a \<le> i \<and> i < k \<longrightarrow> (\<exists>d. responses i = Data d \<and> res_isProcessing d)"
    and "responses k = Data d" and "\<not> res_isProcessing d"
    and "a \<le> k"
  shows "pollLoop responses url a s events =
    (s\<lparr>page_properties := res_properties d,
        page_objectTree := res_objectTreeWithProperties d,
        page_isLoading := False\<rparr>,
     events @ concat (replicate (k - a) [Fetch url, Sleep 1000]) @ [Fetch url])"
  using assms(2,5)
proof (induction "k - a" arbitrary: a events)
  case 0
  then have "a = k" by simp
  with assms(1,3,4) show ?case
    by (subst pollLoop.simps) (simp add: onResponse_complete)
next
  case (Suc n)
  then have lt: "a < k" and n: "n = k - (a + 1)" by simp_all
  from Suc.prems(1) lt obtain d' where d': "responses a = Data d'" "res_isProcessing d'"
    by blast
  have later: "\<forall>i. a + 1 \<le> i \<and> i < k \<longrightarrow> (\<exists>d. responses i = Data d \<and> res_isProcessing d)"
    using Suc.prems(1) by simp
  from lt have le: "a + 1 \<le> k" by simp
  have "pollLoop responses url a s events =
      pollLoop responses url (a + 1) s (events @ [Fetch url, Sleep 1000])"
    using lt assms(1) d' by (subst pollLoop.simps) (simp add: onResponse_processing)
  also have "\<dots> = (s\<lparr>page_properties := res_properties d,
        page_objectTree := res_objectTreeWithProperties d,
        page_isLoading := False\<rparr>,
     (events @ [Fetch url, Sleep 1000]) @ concat (replicate (k - (a + 1)) [Fetch url, Sleep 1000])
       @ [Fetch url])"
    by (rule Suc.hyps(1) [OF n later le])
  also have "(events @ [Fetch url, Sleep 1000]) @ concat (replicate (k - (a + 1)) [Fetch url, Sleep 1000])
       @ [Fetch url] = events @ concat (replicate (k - a) [Fetch url, Sleep 1000]) @ [Fetch url]"
  proof -
    from lt have "k - a = Suc (k - (a + 1))" by simp
    then show ?thesis by (simp del: diff_Suc_Suc)
  qed
  finally show ?case .
qed

lemma pollLoop_timeout:
  assumes "\<forall>i. a \<le> i \<and> i < maxAttempts \<longrightarrow> (\<exists>d. responses i = Data d \<and> res_isProcessing d)"
    and "a \<le> maxAttempts"
  shows "pollLoop responses url a s events =
    (onTimeout s, events @ concat (replicate (maxAttempts - a) [Fetch url, Sleep 1000]))"
  using assms
proof (induction "maxAttempts - a" arbitrary: a events)
  case 0
  then have "a = maxAttempts" by simp
  then show ?case by (subst pollLoop.simps) simp
next
  case (Suc n)
  then have lt: "a < maxAttempts" and n: "n = maxAttempts - (a + 1)" by simp_all
  from Suc.prems(1) lt obtain d' where d': "responses a = Data d'" "res_isProcessing d'"
    by blast
  have later: "\<forall>i. a + 1 \<le> i \<and> i < maxAttempts \<longrightarrow> (\<exists>d. responses i = Data d \<and> res_isProcessing d)"
    using Suc.prems(1) by simp
  from lt have le: "a + 1 \<le> maxAttempts" by simp
  have "pollLoop responses url a s events =
      pollLoop responses url (a + 1) s (events @ [Fetch url, Sleep 1000])"
    using lt d' by (subst pollLoop.simps) (simp add: onResponse_processing)
  also have "\<dots> = (onTimeout s,
     (events @ [Fetch url, Sleep 1000])
       @ concat (replicate (maxAttempts - (a + 1)) [Fetch url, Sleep 1000]))"
    by (rule Suc.hyps(1) [OF n later le])
  also have "(events @ [Fetch url, Sleep 1000])
       @ concat (replicate (maxAttempts - (a + 1)) [Fetch url, Sleep 1000])
     = events @ concat (replicate (maxAttempts - a) [Fetch url, Sleep 1000])"
  proof -
    from lt have "maxAttempts - a = Suc (maxAttempts - (a + 1))" by simp
    then show ?thesis by (simp del: diff_Suc_Suc)
  qed
  finally show ?case .
qed

lemma count_fetches:
  "length (filter isFetch (concat (replicate n [Fetch url, Sleep ms]))) = n"
  by (induction n) simp_all

text \<open>
  The handler of the route with a region does what claim C8 says. One request calls
  \<^verbatim>\<open>getObjectTree\<close> at most once, and calls it exactly when there are tokens and
  \<^verbatim>\<open>getAllProperties\<close> resolved with \<^verbatim>\<open>isProcessing\<close> false. While \<^verbatim>\<open>getAllProperties\<close>
  reports processing, the handler answers "still processing" with empty lists after the
  calls to \<^verbatim>\<open>getAuthTokens\<close> and \<^verbatim>\<open>getAllProperties\<close> alone.
\<close>

theorem GET_fetches_tree_only_when_complete:
  "length (filter isGetObjectTree (snd (GET gw region version_id view_guid))) \<le> 1
   \<and> (length (filter isGetObjectTree (snd (GET gw region version_id view_guid))) = 1 \<longleftrightarrow>
        (\<exists>token allProperties. authTokens gw = Some token
           \<and> getAllProperties gw (decodedVersionId version_id) view_guid region token
               = Some allProperties
           \<and> \<not> ap_isProcessing allProperties))
   \<and> (\<forall>token allProperties. authTokens gw = Some token
           \<and> getAllProperties gw (decodedVersionId version_id) view_guid region token
               = Some allProperties
           \<and> ap_isProcessing allProperties \<longrightarrow>
         GET gw region version_id view_guid =
           (Json \<lparr>res_isProcessing = True, res_properties = [], res_objectTreeWithProperties = []\<rparr>,
            [GetAuthTokens,
             GetAllProperties (decodedVersionId version_id) view_guid region token]))"
  by (auto simp: GET_def Let_def split: option.splits)

text \<open>A request while the job is processing: no call to \<^verbatim>\<open>getObjectTree\<close>.\<close>

theorem GET_fetches_tree_only_when_complete_witness:
  "GET \<lparr>authTokens = Some ''t'',
        getAllProperties = (\<lambda>urn guid region token.
          Some \<lparr>ap_properties = [], ap_isProcessing = True\<rparr>),
        getObjectTree = (\<lambda>urn guid region token. Some [])\<rparr> ''US'' ''dXJu%2FYQ'' ''g1''
     = (Json \<lparr>res_isProcessing = True, res_properties = [], res_objectTreeWithProperties = []\<rparr>,
        [GetAuthTokens, GetAllProperties ''dXJu/YQ'' ''g1'' ''US'' ''t''])
   \<and> length (filter isGetObjectTree (snd (GET \<lparr>authTokens = Some ''t'',
        getAllProperties = (\<lambda>urn guid region token.
          Some \<lparr>ap_properties = [], ap_isProcessing = True\<rparr>),
        getObjectTree = (\<lambda>urn guid region token. Some [])\<rparr> ''US'' ''dXJu%2FYQ'' ''g1''))) \<le> 1"
proof -
  let ?gw = "\<lparr>authTokens = Some ''t'',
        getAllProperties = (\<lambda>urn guid region token.
          Some \<lparr>ap_properties = [], ap_isProcessing = True\<rparr>),
        getObjectTree = (\<lambda>urn guid region token. Some [])\<rparr>"
  have dec: "decodedVersionId ''dXJu%2FYQ'' = ''dXJu/YQ''"
    by (simp add: decodedVersionId_def replace.simps)
  have h: "authTokens ?gw = Some ''t''
      \<and> getAllProperties ?gw (decodedVersionId ''dXJu%2FYQ'') ''g1'' ''US'' ''t''
          = Some \<lparr>ap_properties = [], ap_isProcessing = True\<rparr>
      \<and> ap_isProcessing \<lparr>ap_properties = [], ap_isProcessing = True\<rparr>"
    by simp
  from GET_fetches_tree_only_when_complete [of ?gw "''US''" "''dXJu%2FYQ''" "''g1''"] h dec
  show ?thesis by (simp del: One_nat_def)
qed

lemma merge_no_records:
  "attachProperties Map.empty tree = tree"
  "attachObject Map.empty object = object"
  by (induction tree and object rule: allObjects_objectAndBelow.induct)
    (simp_all split: option.splits)

text \<open>
  Claim C8 on the older handler. Its guard reads a key that the older service does not
  return, so the guard never holds back: whenever there are tokens and the SDK client
  answers, the request calls \<^verbatim>\<open>getObjectTree\<close> (once), also while the job is processing.
  In that case the handler answers \<^verbatim>\<open>isProcessing: false\<close> with no properties and the
  bare object tree. The claim asks for no call to \<^verbatim>\<open>getObjectTree\<close> on such a request.
\<close>

theorem GET_v1_fetches_tree_while_processing:
  assumes "v1_authTokens c = Some token"
    and "v1_getAllProperties c (decodedVersionId version_id) view_guid ''EMEA'' token = Some resp"
  shows "length (filter isGetObjectTree (snd (GET_v1 c version_id view_guid))) = 1
    \<and> GetObjectTree (decodedVersionId version_id) view_guid ''EMEA'' token
          \<in> set (snd (GET_v1 c version_id view_guid))
    \<and> (\<forall>objectTree. sdk_isProcessing resp
          \<and> v1_getObjectTree c (decodedVersionId version_id) view_guid ''EMEA'' token
              = Some objectTree \<longrightarrow>
          fst (GET_v1 c version_id view_guid) =
            Json \<lparr>res_isProcessing = False, res_properties = [],
                  res_objectTreeWithProperties = objectTree\<rparr>)"
  using assms
  by (auto simp: GET_v1_def Let_def isProcessing_v1_def getAllProperties_v1_def merge_def
      propertiesMap_def merge_no_records split: option.splits)

text \<open>
  A poll of the older handler while the SDK client reports \<^verbatim>\<open>isProcessing: true\<close>.
\<close>

theorem GET_v1_fetches_tree_while_processing_witness:
  "fst (GET_v1 \<lparr>v1_authTokens = Some ''t'',
        v1_getAllProperties = (\<lambda>urn guid region token.
          Some \<lparr>sdk_isProcessing = True, sdk_collection = []\<rparr>),
        v1_getObjectTree = (\<lambda>urn guid region token.
          Some [ObjectTreeData 1 ''Wall'' None None])\<rparr> ''dXJu%2FYQ'' ''g1'')
     = Json \<lparr>res_isProcessing = False, res_properties = [],
              res_objectTreeWithProperties = [ObjectTreeData 1 ''Wall'' None None]\<rparr>
   \<and> snd (GET_v1 \<lparr>v1_authTokens = Some ''t'',
        v1_getAllProperties = (\<lambda>urn guid region token.
          Some \<lparr>sdk_isProcessing = True, sdk_collection = []\<rparr>),
        v1_getObjectTree = (\<lambda>urn guid region token.
          Some [ObjectTreeData 1 ''Wall'' None None])\<rparr> ''dXJu%2FYQ'' ''g1'')
     = [GetAuthTokens, GetAllProperties ''dXJu/YQ'' ''g1'' ''EMEA'' ''t'',
        GetObjectTree ''dXJu/YQ'' ''g1'' ''EMEA'' ''t'']
   \<and> length (filter isGetObjectTree (snd (GET_v1 \<lparr>v1_authTokens = Some ''t'',
        v1_getAllProperties = (\<lambda>urn guid region token.
          Some \<lparr>sdk_isProcessing = True, sdk_collection = []\<rparr>),
        v1_getObjectTree = (\<lambda>urn guid region token.
          Some [ObjectTreeData 1 ''Wall'' None None])\<rparr> ''dXJu%2FYQ'' ''g1''))) = 1"
proof -
  let ?c = "\<lparr>v1_authTokens = Some ''t'',
        v1_getAllProperties = (\<lambda>urn guid region token.
          Some \<lparr>sdk_isProcessing = True, sdk_collection = []\<rparr>),
        v1_getObjectTree = (\<lambda>urn guid region token.
          Some [ObjectTreeData 1 ''Wall'' None None])\<rparr>"
  have dec: "decodedVersionId ''dXJu%2FYQ'' = ''dXJu/YQ''"
    by (simp add: decodedVersionId_def replace.simps)
  have tok: "v1_authTokens ?c = Some ''t''" by simp
  have ans: "v1_getAllProperties ?c (decodedVersionId ''dXJu%2FYQ'') ''g1'' ''EMEA'' ''t''
      = Some \<lparr>sdk_isProcessing = True, sdk_collection = []\<rparr>"
    by simp
  have busy: "sdk_isProcessing \<lparr>sdk_isProcessing = True, sdk_collection = []\<rparr>
      \<and> v1_getObjectTree ?c (decodedVersionId ''dXJu%2FYQ'') ''g1'' ''EMEA'' ''t''
          = Some [ObjectTreeData 1 ''Wall'' None None]"
    by simp
  have calls: "snd (GET_v1 ?c ''dXJu%2FYQ'' ''g1'')
     = [GetAuthTokens, GetAllProperties ''dXJu/YQ'' ''g1'' ''EMEA'' ''t'',
        GetObjectTree ''dXJu/YQ'' ''g1'' ''EMEA'' ''t'']"
    by (simp add: GET_v1_def dec isProcessing_v1_def Let_def)
  note t = GET_v1_fetches_tree_while_processing [OF tok ans]
  from t have once: "length (filter isGetObjectTree (snd (GET_v1 ?c ''dXJu%2FYQ'' ''g1''))) = 1"
    by (rule conjunct1)
  from t busy have answer: "fst (GET_v1 ?c ''dXJu%2FYQ'' ''g1'')
     = Json \<lparr>res_isProcessing = False, res_properties = [],
              res_objectTreeWithProperties = [ObjectTreeData 1 ''Wall'' None None]\<rparr>"
    by blast
  from answer calls once show ?thesis by (intro conjI)
qed

text \<open>
  Claim C3. For every \<open>k\<close> from 0 to 149: when the first \<open>k\<close> requests are answered
  "still processing" and the next one is answered complete with data \<open>d\<close>, the loop ends
  with the page not loading, without error, holding the properties and the enriched tree
  of \<open>d\<close>. What it did, in order: \<open>k\<close> times a request followed by a wait of 1000 ms, then
  one last request; that is \<open>k + 1\<close> requests.
\<close>

theorem poll_succeeds_after_k_processing:
  assumes "k \<le> 149"
    and "\<forall>i<k. \<exists>p. responses i = Data p \<and> res_isProcessing p"
    and "responses k = Data d" and "\<not> res_isProcessing d"
  shows "handleModelViewSelect responses region s type viewGuid itemUrn =
      (s\<lparr>page_isLoading := False, page_error := None,
         page_selectedVersionId := Some (encodedUrn itemUrn),
         page_properties := res_properties d,
         page_objectTree := res_objectTreeWithProperties d\<rparr>,
       concat (replicate k
           [Fetch (pollUrl region (encodedUrn itemUrn) viewGuid), Sleep 1000])
         @ [Fetch (pollUrl region (encodedUrn itemUrn) viewGuid)])
    \<and> length (filter isFetch
         (snd (handleModelViewSelect responses region s type viewGuid itemUrn))) = k + 1"
proof -
  let ?url = "pollUrl region (encodedUrn itemUrn) viewGuid"
  have k: "k < maxAttempts" using assms(1) by (simp add: maxAttempts_def)
  have before: "\<forall>i. 0 \<le> i \<and> i < k \<longrightarrow> (\<exists>p. responses i = Data p \<and> res_isProcessing p)"
    using assms(2) by simp
  have run: "handleModelViewSelect responses region s type viewGuid itemUrn =
      (s\<lparr>page_isLoading := False, page_error := None,
         page_selectedVersionId := Some (encodedUrn itemUrn),
         page_properties := res_properties d,
         page_objectTree := res_objectTreeWithProperties d\<rparr>,
       concat (replicate k [Fetch ?url, Sleep 1000]) @ [Fetch ?url])"
    unfolding handleModelViewSelect_def
    by (subst pollLoop_ready [OF k before assms(3,4)]) (simp_all add: selectView_def)
  show ?thesis
    unfolding run by (simp add: count_fetches)
qed

text \<open>Two "still processing" answers, then the data: three requests, two waits.\<close>

theorem poll_succeeds_after_k_processing_witness:
  "handleModelViewSelect
      (\<lambda>i. if i < 2 then Data \<lparr>res_isProcessing = True, res_properties = [],
                                 res_objectTreeWithProperties = []\<rparr>
            else Data \<lparr>res_isProcessing = False,
                   res_properties = [\<lparr>prop_objectid = 1, prop_name = ''Wall'', prop_properties = []\<rparr>],
                   res_objectTreeWithProperties = [ObjectTreeData 1 ''Wall'' None (Some [])]\<rparr>)
      ''US''
      \<lparr>page_isLoading = False, page_selectedVersionId = None, page_properties = [],
        page_objectTree = [], page_error = Some ''old''\<rparr>
      ''view'' ''g1'' ''dXJu/YQ''
     = (\<lparr>page_isLoading = False, page_selectedVersionId = Some ''dXJu%2FYQ'',
         page_properties = [\<lparr>prop_objectid = 1, prop_name = ''Wall'', prop_properties = []\<rparr>],
         page_objectTree = [ObjectTreeData 1 ''Wall'' None (Some [])], page_error = None\<rparr>,
        [Fetch ''/api/modelDerivate/US/dXJu%2FYQ/views/g1/allProperties'', Sleep 1000,
         Fetch ''/api/modelDerivate/US/dXJu%2FYQ/views/g1/allProperties'', Sleep 1000,
         Fetch ''/api/modelDerivate/US/dXJu%2FYQ/views/g1/allProperties''])"
proof -
  let ?busy = "\<lparr>res_isProcessing = True, res_properties = [],
      res_objectTreeWithProperties = []\<rparr>"
  let ?done = "\<lparr>res_isProcessing = False,
      res_properties = [\<lparr>prop_objectid = 1, prop_name = ''Wall'', prop_properties = []\<rparr>],
      res_objectTreeWithProperties = [ObjectTreeData 1 ''Wall'' None (Some [])]\<rparr>"
  let ?responses = "\<lambda>i::nat. if i < 2 then Data ?busy else Data ?done"
  have k: "(2::nat) \<le> 149" by simp
  have before: "\<forall>i<2. \<exists>p. ?responses i = Data p \<and> res_isProcessing p" by simp
  have last: "?responses 2 = Data ?done" by simp
  have ready: "\<not> res_isProcessing ?done" by simp
  have enc: "encodedUrn ''dXJu/YQ'' = ''dXJu%2FYQ''"
    by (simp add: encodedUrn_def replace.simps)
  have two: "replicate 2 x = [x, x]" for x :: "Event list"
    by (simp add: numeral_2_eq_2)
  from poll_succeeds_after_k_processing [OF k before last ready, where region = "''US''"
      and type = "''view''" and viewGuid = "''g1''" and itemUrn = "''dXJu/YQ''"
      and s = "\<lparr>page_isLoading = False, page_selectedVersionId = None, page_properties = [],
        page_objectTree = [], page_error = Some ''old''\<rparr>"]
  show ?thesis by (simp add: enc pollUrl_def two)
qed

text \<open>
  Claim C4. When 150 requests in a row are answered "still processing", the loop makes
  exactly these 150 requests, each followed by a wait of 1000 ms, and ends in the error
  state with the timeout message and the page not loading. The page then shows the
  error panel with that message, and Dismiss clears it and shows the views again: the
  properties and the tree of the page are as they were.
\<close>

theorem poll_times_out_after_150:
  assumes "\<forall>i<150. \<exists>p. responses i = Data p \<and> res_isProcessing p"
  shows "handleModelViewSelect responses region s type viewGuid itemUrn =
      (s\<lparr>page_isLoading := False,
         page_error := Some ''Timeout: Model data is taking too long to load. Please try again later.'',
         page_selectedVersionId := Some (encodedUrn itemUrn)\<rparr>,
       concat (replicate 150
           [Fetch (pollUrl region (encodedUrn itemUrn) viewGuid), Sleep 1000]))
    \<and> length (filter isFetch
         (snd (handleModelViewSelect responses region s type viewGuid itemUrn))) = 150
    \<and> content (fst (handleModelViewSelect responses region s type viewGuid itemUrn)) =
        ErrorPanel ''Timeout: Model data is taking too long to load. Please try again later.''
    \<and> content (dismiss (fst (handleModelViewSelect responses region s type viewGuid itemUrn))) =
        ModelViews"
proof -
  let ?url = "pollUrl region (encodedUrn itemUrn) viewGuid"
  have all: "\<forall>i. 0 \<le> i \<and> i < maxAttempts \<longrightarrow> (\<exists>p. responses i = Data p \<and> res_isProcessing p)"
    using assms by (simp add: maxAttempts_def)
  have run: "handleModelViewSelect responses region s type viewGuid itemUrn =
      (s\<lparr>page_isLoading := False,
         page_error := Some ''Timeout: Model data is taking too long to load. Please try again later.'',
         page_selectedVersionId := Some (encodedUrn itemUrn)\<rparr>,
       concat (replicate 150 [Fetch ?url, Sleep 1000]))"
    unfolding handleModelViewSelect_def
    by (subst pollLoop_timeout [OF all]) (simp_all add: selectView_def onTimeout_def maxAttempts_def)
  show ?thesis
    unfolding run by (simp add: count_fetches content_def dismiss_def)
qed

text \<open>A job that never finishes.\<close>

theorem poll_times_out_after_150_witness:
  "handleModelViewSelect
      (\<lambda>i. Data \<lparr>res_isProcessing = True, res_properties = [], res_objectTreeWithProperties = []\<rparr>)
      ''US''
      \<lparr>page_isLoading = False, page_selectedVersionId = None, page_properties = [],
        page_objectTree = [], page_error = None\<rparr>
      ''view'' ''g1'' ''dXJu''
     = (\<lparr>page_isLoading = False, page_selectedVersionId = Some ''dXJu'',
         page_properties = [], page_objectTree = [],
         page_error = Some ''Timeout: Model data is taking too long to load. Please try again later.''\<rparr>,
        concat (replicate 150
          [Fetch ''/api/modelDerivate/US/dXJu/views/g1/allProperties'', Sleep 1000]))
   \<and> length (filter isFetch (snd (handleModelViewSelect
      (\<lambda>i. Data \<lparr>res_isProcessing = True, res_properties = [], res_objectTreeWithProperties = []\<rparr>)
      ''US''
      \<lparr>page_isLoading = False, page_selectedVersionId = None, page_properties = [],
        page_objectTree = [], page_error = None\<rparr>
      ''view'' ''g1'' ''dXJu''))) = 150"
proof -
  let ?responses = "\<lambda>i::nat. Data \<lparr>res_isProcessing = True, res_properties = [],
      res_objectTreeWithProperties = []\<rparr>"
  have busy: "\<forall>i<150. \<exists>p. ?responses i = Data p \<and> res_isProcessing p" by simp
  have enc: "encodedUrn ''dXJu'' = ''dXJu''"
    by (simp add: encodedUrn_def replace.simps)
  note t = poll_times_out_after_150 [OF busy, where region = "''US''" and type = "''view''"
      and viewGuid = "''g1''" and itemUrn = "''dXJu''"
      and s = "\<lparr>page_isLoading = False, page_selectedVersionId = None, page_properties = [],
        page_objectTree = [], page_error = None\<rparr>"]
  from t have run: "handleModelViewSelect ?responses ''US''
      \<lparr>page_isLoading = False, page_selectedVersionId = None, page_properties = [],
        page_objectTree = [], page_error = None\<rparr> ''view'' ''g1'' ''dXJu''
    = (\<lparr>page_isLoading = False, page_selectedVersionId = None, page_properties = [],
        page_objectTree = [], page_error = None\<rparr>
        \<lparr>page_isLoading := False,
         page_error := Some ''Timeout: Model data is taking too long to load. Please try again later.'',
         page_selectedVersionId := Some (encodedUrn ''dXJu'')\<rparr>,
       concat (replicate 150
           [Fetch (pollUrl ''US'' (encodedUrn ''dXJu'') ''g1''), Sleep 1000]))"
    by (rule conjunct1)
  show ?thesis
    unfolding run by (simp add: enc pollUrl_def count_fetches)
qed




end
